theory Spec2Isabelle
  imports
    Complex_Main
    "HOL-Library.AList"
    "HOL-Library.Char_ord"
    "HOL-Library.List_Lexorder"
    "HOL-Library.Product_Lexorder"
begin

section \<open>Data model\<close>

text \<open>
  A literal is a predicate name with an ordered argument tuple. A clause is a Python
  \<open>frozenset\<close> of literals and a formula a set of clauses; a set is represented by a
  list of its elements, and its iteration order by the order of that list. Python
  floats are idealised as real numbers. Tuples and strings are compared
  lexicographically, as Python does.
\<close>

type_synonym literal = "string \<times> string list"
type_synonym clause = "literal list"
type_synonym formula = "clause list"

datatype error = ZeroDivisionError | ValueError | KeyError | AttributeError

text \<open>The five trace levels that key \<open>_seen_debugs\<close> and \<open>_debug_summary\<close>.\<close>

datatype level = Literal_flat | Literal_weighted | Clause_flat | Clause_weighted | Formula

fun level_name :: "level \<Rightarrow> string" where
  "level_name Literal_flat = ''literal_flat''"
| "level_name Literal_weighted = ''literal_weighted''"
| "level_name Clause_flat = ''clause_flat''"
| "level_name Clause_weighted = ''clause_weighted''"
| "level_name Formula = ''formula''"

text \<open>The tuples appended to the trace buffers.\<close>

datatype entry =
    LiteralEntry literal literal real real real
  | Total real real real real
  | ClausePair literal literal real
  | ClausePairScore clause clause real
  | FormulaPair clause clause real

record trace =
  seen_debugs :: "level \<Rightarrow> literal set set"
  debug_summary :: "level \<Rightarrow> entry list"

text \<open>The \<open>clause\<close> entry of \<open>params\<close>; an absent key is \<open>None\<close>.\<close>

record clause_params =
  cp_alpha :: "real option"
  cp_beta :: "real option"
  cp_p :: "nat option"
  cp_agg :: "(real list \<Rightarrow> error + real) option"

record sim_params =
  clause_cfg :: "clause_params option"

section \<open>Python primitives\<close>

definition dict_get :: "('k \<times> 'v) list \<Rightarrow> 'k \<Rightarrow> 'v \<Rightarrow> 'v" where
  "dict_get d k dflt = (case map_of d k of None \<Rightarrow> dflt | Some v \<Rightarrow> v)"

definition dict_item :: "('k \<times> 'v) list \<Rightarrow> 'k \<Rightarrow> error + 'v" where
  "dict_item d k = (case map_of d k of None \<Rightarrow> Inl KeyError | Some v \<Rightarrow> Inr v)"

definition dict_values :: "('k \<times> 'v) list \<Rightarrow> 'v list" where
  "dict_values d = map snd d"

definition dict_merge :: "('k \<times> 'v) list \<Rightarrow> ('k \<times> 'v) list \<Rightarrow> ('k \<times> 'v) list" where
  "dict_merge d1 d2 = fold (\<lambda>kv d. AList.update (fst kv) (snd kv) d) d2 d1"

definition py_div :: "real \<Rightarrow> real \<Rightarrow> error + real" where
  "py_div x y = (if y = 0 then Inl ZeroDivisionError else Inr (x / y))"

definition bindE :: "error + 'a \<Rightarrow> ('a \<Rightarrow> error + 'b) \<Rightarrow> error + 'b" where
  "bindE r f = (case r of Inl e \<Rightarrow> Inl e | Inr v \<Rightarrow> f v)"

fun mapE :: "('a \<Rightarrow> error + 'b) \<Rightarrow> 'a list \<Rightarrow> error + 'b list" where
  "mapE f [] = Inr []"
| "mapE f (x # xs) = bindE (f x) (\<lambda>y. bindE (mapE f xs) (\<lambda>ys. Inr (y # ys)))"

fun foldE :: "('a \<Rightarrow> 'b \<Rightarrow> error + 'b) \<Rightarrow> 'a list \<Rightarrow> 'b \<Rightarrow> error + 'b" where
  "foldE f [] acc = Inr acc"
| "foldE f (x # xs) acc = bindE (f x acc) (\<lambda>acc'. foldE f xs acc')"

text \<open>The builtin \<open>max\<close> on a sequence: the first maximal element, \<open>ValueError\<close> on an
  empty sequence.\<close>

definition py_max :: "real list \<Rightarrow> error + real" where
  "py_max xs = (case xs of [] \<Rightarrow> Inl ValueError | x # ys \<Rightarrow> Inr (fold (\<lambda>y best. if y > best then y else best) ys x))"

definition py_max_key :: "('a \<Rightarrow> error + real) \<Rightarrow> 'a list \<Rightarrow> error + 'a" where
  "py_max_key key xs =
     (case xs of
        [] \<Rightarrow> Inl ValueError
      | x # ys \<Rightarrow>
          bindE (key x) (\<lambda>kx.
          bindE (foldE (\<lambda>y (best, kbest).
                   bindE (key y) (\<lambda>ky. Inr (if ky > kbest then (y, ky) else (best, kbest))))
                 ys (x, kx))
            (\<lambda>(best, kbest). Inr best)))"

section \<open>Aggregation rules\<close>

definition agg_max :: "real list \<Rightarrow> error + real" where
  "agg_max scores = (if scores \<noteq> [] then py_max scores else Inr 0)"

definition agg_avg :: "real list \<Rightarrow> error + real" where
  "agg_avg scores =
     (if scores \<noteq> [] then py_div (sum_list scores) (real (length scores)) else Inr 0)"

section \<open>Argument alignment\<close>

definition pointwise_similarity_weighted ::
  "string list \<Rightarrow> string list \<Rightarrow> (string \<Rightarrow> string \<Rightarrow> real) \<Rightarrow>
   (string \<times> real) list \<Rightarrow> (string \<times> real) list \<Rightarrow> real \<Rightarrow> real \<Rightarrow> real \<Rightarrow> error + real" where
  "pointwise_similarity_weighted args1 args2 simC weights1 weights2
      positional_weight unordered_weight diff =
     (if args1 = [] \<or> args2 = [] then Inr 0
      else
        let min_len = min (length args1) (length args2);
            (sim_pos, total_weight_pos) =
              fold (\<lambda>i (sim_pos, total_weight_pos).
                      let a1 = args1 ! i; a2 = args2 ! i;
                          sim = simC a1 a2;
                          w1 = dict_get weights1 a1 0;
                          w2 = dict_get weights2 a2 0;
                          importance = w1 * w2
                      in (sim_pos + importance * sim, total_weight_pos + importance))
                   [0..<min_len] (0, 0)
        in bindE (if total_weight_pos > 0 then py_div sim_pos (total_weight_pos + diff) else Inr 0)
           (\<lambda>sim_pos.
        let (sim_unordered, total_weight_unordered) =
              fold (\<lambda>a1 (sim_unordered, total_weight_unordered).
                      let w1 = dict_get weights1 a1 0;
                          (best_sim, best_imp) =
                            fold (\<lambda>a2 (best_sim, best_imp).
                                    let w2 = dict_get weights2 a2 0;
                                        sim = simC a1 a2;
                                        importance = w1 * w2
                                    in if sim > best_sim then (sim, importance)
                                       else (best_sim, best_imp))
                                 args2 (0, 0)
                      in (sim_unordered + best_sim * best_imp, total_weight_unordered + best_imp))
                   args1 (0, 0)
        in bindE (if total_weight_unordered > 0
                  then py_div sim_unordered (total_weight_unordered + diff) else Inr 0)
           (\<lambda>sim_unordered.
        Inr (positional_weight * sim_pos + unordered_weight * sim_unordered))))"

definition safe_sort_clause :: "clause \<Rightarrow> literal list" where
  "safe_sort_clause c = sort_key (\<lambda>lit. (fst lit, snd lit)) c"

section \<open>Trace state\<close>

text \<open>
  The module-level dictionaries \<open>_seen_debugs\<close> and \<open>_debug_summary\<close> are threaded as a
  state; a computation returns its result or the exception raised, and the state as
  it is at that point.
\<close>

type_synonym 'a M = "trace \<Rightarrow> (error + 'a) \<times> trace"

definition returnM :: "'a \<Rightarrow> 'a M" where
  "returnM v = (\<lambda>s. (Inr v, s))"

definition liftM :: "error + 'a \<Rightarrow> 'a M" where
  "liftM r = (\<lambda>s. (r, s))"

definition bindM :: "'a M \<Rightarrow> ('a \<Rightarrow> 'b M) \<Rightarrow> 'b M" where
  "bindM m f = (\<lambda>s. case m s of (Inl e, s') \<Rightarrow> (Inl e, s') | (Inr v, s') \<Rightarrow> f v s')"

fun mapM :: "('a \<Rightarrow> 'b M) \<Rightarrow> 'a list \<Rightarrow> 'b list M" where
  "mapM f [] = returnM []"
| "mapM f (x # xs) = bindM (f x) (\<lambda>y. bindM (mapM f xs) (\<lambda>ys. returnM (y # ys)))"

fun foldM :: "('a \<Rightarrow> 'b \<Rightarrow> 'b M) \<Rightarrow> 'a list \<Rightarrow> 'b \<Rightarrow> 'b M" where
  "foldM f [] acc = returnM acc"
| "foldM f (x # xs) acc = bindM (f x acc) (\<lambda>acc'. foldM f xs acc')"

definition append_summary :: "level \<Rightarrow> entry \<Rightarrow> unit M" where
  "append_summary lvl e =
     (\<lambda>s. (Inr (), s\<lparr>debug_summary := (debug_summary s)(lvl := debug_summary s lvl @ [e])\<rparr>))"

definition extend_summary :: "level \<Rightarrow> entry list \<Rightarrow> unit M" where
  "extend_summary lvl es =
     (\<lambda>s. (Inr (), s\<lparr>debug_summary := (debug_summary s)(lvl := debug_summary s lvl @ es)\<rparr>))"

definition clear_traces :: "unit M" where
  "clear_traces = (\<lambda>s. (Inr (), s\<lparr>seen_debugs := (\<lambda>_. {}), debug_summary := (\<lambda>_. [])\<rparr>))"

definition record_debug :: "level \<Rightarrow> literal set \<Rightarrow> entry \<Rightarrow> unit M" where
  "record_debug lvl key e =
     (\<lambda>s. if key \<notin> seen_debugs s lvl
          then (Inr (), s\<lparr>seen_debugs := (seen_debugs s)(lvl := insert key (seen_debugs s lvl)),
                          debug_summary := (debug_summary s)(lvl := debug_summary s lvl @ [e])\<rparr>)
          else (Inr (), s))"

text \<open>\<open>debug and debug.get(k, False)\<close>: \<open>None\<close> and the empty dictionary are falsy.\<close>

definition debug_flag :: "(string \<times> bool) list option \<Rightarrow> string \<Rightarrow> bool" where
  "debug_flag debug k = (case debug of None \<Rightarrow> False | Some d \<Rightarrow> d \<noteq> [] \<and> dict_get d k False)"

text \<open>\<open>tuple(sorted([obj1, obj2]))\<close>\<close>

definition canonical :: "literal \<Rightarrow> literal \<Rightarrow> literal \<times> literal" where
  "canonical obj1 obj2 = (if obj2 < obj1 then (obj2, obj1) else (obj1, obj2))"

section \<open>Literal scores\<close>

definition simLiteral_flat ::
  "(string \<Rightarrow> string \<Rightarrow> real) \<Rightarrow> literal \<Rightarrow> literal \<Rightarrow> (string \<times> bool) list option \<Rightarrow> real \<Rightarrow> real M" where
  "simLiteral_flat simC obj1 obj2 debug diff =
     (let (pred1, args1) = obj1; (pred2, args2) = obj2;
          sim_pred = simC pred1 pred2
      in bindM (liftM (pointwise_similarity_weighted args1 args2 simC
                         (map (\<lambda>k. (k, 1)) args1) (map (\<lambda>k. (k, 1)) args2) (8 / 10) (2 / 10) diff))
           (\<lambda>sim_args.
         let score = (1 / 2) * sim_pred + (1 / 2) * sim_args
         in bindM (if debug_flag debug ''literal''
                   then record_debug Literal_flat {obj1, obj2}
                          (LiteralEntry (fst (canonical obj1 obj2)) (snd (canonical obj1 obj2))
                             sim_pred sim_args score)
                   else returnM ())
              (\<lambda>_. returnM score)))"

definition simLiteral ::
  "(string \<Rightarrow> string \<Rightarrow> real) \<Rightarrow> literal \<Rightarrow> literal \<Rightarrow> (string \<times> real) list \<Rightarrow> (string \<times> real) list \<Rightarrow>
   (string \<times> bool) list option \<Rightarrow> real \<Rightarrow> real M" where
  "simLiteral simC obj1 obj2 predicate_weights constant_weights debug diff =
     (let (pred1, args1) = obj1; (pred2, args2) = obj2;
          sim_pred = simC pred1 pred2;
          imp_pred = dict_get predicate_weights pred1 0 * dict_get predicate_weights pred2 0;
          num = sim_pred * imp_pred;
          denom = imp_pred
      in bindM (liftM (pointwise_similarity_weighted args1 args2 simC
                         constant_weights constant_weights (8 / 10) (2 / 10) diff))
           (\<lambda>sim_args.
         let imp_args_total =
               sum_list (concat (map (\<lambda>a1. map (\<lambda>a2. dict_get constant_weights a1 0
                                                     * dict_get constant_weights a2 0) args2) args1));
             num = num + sim_args * imp_args_total;
             denom = denom + imp_args_total
         in bindM (liftM (if denom > 0 then py_div num (denom + diff) else Inr 0))
              (\<lambda>score.
            bindM (if debug_flag debug ''literal''
                   then record_debug Literal_weighted {obj1, obj2}
                          (LiteralEntry (fst (canonical obj1 obj2)) (snd (canonical obj1 obj2))
                             sim_pred sim_args score)
                   else returnM ())
              (\<lambda>_. returnM score))))"

section \<open>Tversky set similarity\<close>

definition membership ::
  "(literal \<Rightarrow> literal \<Rightarrow> real M) \<Rightarrow> nat \<Rightarrow> (real list \<Rightarrow> error + real) \<Rightarrow> literal \<Rightarrow> literal list \<Rightarrow> real M" where
  "membership sim p agg x Y =
     bindM (mapM (\<lambda>y. bindM (sim x y) (\<lambda>s. returnM (s ^ p))) Y) (\<lambda>scores. liftM (agg scores))"

text \<open>The debug loop over all pairs, with its local \<open>seen\<close> set.\<close>

fun record_pairs ::
  "(literal \<Rightarrow> literal \<Rightarrow> real M) \<Rightarrow> level \<Rightarrow> (literal \<times> literal) list \<Rightarrow> literal set set \<Rightarrow> unit M" where
  "record_pairs sim lvl [] seen = returnM ()"
| "record_pairs sim lvl (xy # ps) seen =
     (let key = {fst xy, snd xy}
      in if key \<notin> seen
         then bindM (sim (fst xy) (snd xy)) (\<lambda>s.
              bindM (append_summary lvl (ClausePair (fst xy) (snd xy) s)) (\<lambda>_.
              record_pairs sim lvl ps (insert key seen)))
         else record_pairs sim lvl ps seen)"

definition generalized_tversky_similarity ::
  "literal list \<Rightarrow> literal list \<Rightarrow> (literal \<Rightarrow> literal \<Rightarrow> real M) \<Rightarrow> real \<Rightarrow> real \<Rightarrow> nat \<Rightarrow>
   (real list \<Rightarrow> error + real) \<Rightarrow> (string \<times> bool) list option \<Rightarrow> level \<Rightarrow> real M" where
  "generalized_tversky_similarity X Y sim alpha beta p agg debug debug_level =
     (if X = [] \<or> Y = [] then returnM 0
      else
        bindM (mapM (\<lambda>x. membership sim p agg x Y) X) (\<lambda>match_X.
        bindM (mapM (\<lambda>y. membership sim p agg y X) Y) (\<lambda>match_Y.
        let a = (sum_list match_X + sum_list match_Y) / 2;
            b = sum_list (map (\<lambda>s. 1 - s) match_X);
            c = sum_list (map (\<lambda>s. 1 - s) match_Y);
            denom = a + alpha * b + beta * c
        in bindM (liftM (if denom > 0 then py_div a denom else Inr 0)) (\<lambda>score.
           bindM (if debug_flag debug (level_name debug_level)
                  then bindM (append_summary debug_level (Total a b c score)) (\<lambda>_.
                       record_pairs sim debug_level (List.product X Y) {})
                  else returnM ())
             (\<lambda>_. returnM score)))))"

section \<open>Formula score\<close>

text \<open>The flat clause-pair matrix, filled in the order of the nested loops.\<close>

definition flat_step ::
  "(string \<Rightarrow> string \<Rightarrow> real) \<Rightarrow> (string \<times> bool) list option \<Rightarrow> clause \<times> clause \<Rightarrow>
   ((clause \<times> clause) \<times> real) list \<Rightarrow> ((clause \<times> clause) \<times> real) list M" where
  "flat_step simC debug cc flat_similarities =
     bindM (generalized_tversky_similarity (fst cc) (snd cc)
              (\<lambda>x y. simLiteral_flat simC x y None 0) 1 1 1 py_max debug Clause_flat) (\<lambda>sim.
     bindM (append_summary Clause_flat (ClausePairScore (fst cc) (snd cc) sim)) (\<lambda>_.
     returnM (AList.update cc sim flat_similarities)))"

text \<open>The two best-match loops, filling \<open>best_matches\<close>.\<close>

definition best_match_left ::
  "((clause \<times> clause) \<times> real) list \<Rightarrow> clause list \<Rightarrow> clause \<Rightarrow>
   ((clause \<times> clause) \<times> real) list \<Rightarrow> error + ((clause \<times> clause) \<times> real) list" where
  "best_match_left flat_similarities all_clauses2 c1 best_matches =
     bindE (py_max_key (\<lambda>c2. dict_item flat_similarities (c1, c2)) all_clauses2) (\<lambda>best_c2.
     bindE (dict_item flat_similarities (c1, best_c2)) (\<lambda>v.
     Inr (AList.update (c1, best_c2) v best_matches)))"

definition best_match_right ::
  "((clause \<times> clause) \<times> real) list \<Rightarrow> clause list \<Rightarrow> clause \<Rightarrow>
   ((clause \<times> clause) \<times> real) list \<Rightarrow> error + ((clause \<times> clause) \<times> real) list" where
  "best_match_right flat_similarities all_clauses1 c2 best_matches =
     bindE (py_max_key (\<lambda>c1. dict_item flat_similarities (c1, c2)) all_clauses1) (\<lambda>best_c1.
     bindE (dict_item flat_similarities (best_c1, c2)) (\<lambda>v.
     Inr (AList.update (best_c1, c2) v best_matches)))"

definition best_matches_of ::
  "((clause \<times> clause) \<times> real) list \<Rightarrow> clause list \<Rightarrow> clause list \<Rightarrow>
   error + ((clause \<times> clause) \<times> real) list" where
  "best_matches_of flat_similarities all_clauses1 all_clauses2 =
     bindE (foldE (best_match_left flat_similarities all_clauses2) all_clauses1 [])
       (foldE (best_match_right flat_similarities all_clauses1) all_clauses2)"

text \<open>\<open>params.get("clause", {})\<close>; \<open>params\<close> is \<open>None\<close> when the argument is omitted.\<close>

definition params_clause :: "sim_params option \<Rightarrow> error + clause_params" where
  "params_clause params =
     (case params of
        None \<Rightarrow> Inl AttributeError
      | Some ps \<Rightarrow>
          (case clause_cfg ps of
             None \<Rightarrow> Inr \<lparr>cp_alpha = None, cp_beta = None, cp_p = None, cp_agg = None\<rparr>
           | Some c \<Rightarrow> Inr c))"

definition opt_get :: "'a option \<Rightarrow> 'a \<Rightarrow> 'a" where
  "opt_get v dflt = (case v of None \<Rightarrow> dflt | Some x \<Rightarrow> x)"

definition weighted_step ::
  "(string \<Rightarrow> string \<Rightarrow> real) \<Rightarrow> (clause \<times> real) list \<Rightarrow> (clause \<times> real) list \<Rightarrow>
   (string \<times> real) list \<Rightarrow> (string \<times> real) list \<Rightarrow> sim_params option \<Rightarrow>
   (string \<times> bool) list option \<Rightarrow> real \<Rightarrow> (clause \<times> clause) \<times> real \<Rightarrow> (real \<times> real) M" where
  "weighted_step simC clause_weights1 clause_weights2 predicate_weights constant_weights
      params debug diff item =
     (let c1 = fst (fst item); c2 = snd (fst item)
      in bindM (liftM (params_clause params)) (\<lambda>cfg_alpha.
         bindM (liftM (params_clause params)) (\<lambda>cfg_beta.
         bindM (liftM (params_clause params)) (\<lambda>cfg_p.
         bindM (liftM (params_clause params)) (\<lambda>cfg_agg.
         bindM (generalized_tversky_similarity c1 c2
                  (\<lambda>l1 l2. simLiteral simC l1 l2 predicate_weights constant_weights debug diff)
                  (opt_get (cp_alpha cfg_alpha) (1 / 2))
                  (opt_get (cp_beta cfg_beta) (1 / 2))
                  (opt_get (cp_p cfg_p) 1)
                  (opt_get (cp_agg cfg_agg) py_max)
                  debug Clause_weighted) (\<lambda>sim.
         bindM (append_summary Clause_weighted (ClausePairScore c1 c2 sim)) (\<lambda>_.
         let w1 = dict_get clause_weights1 c1 1;
             w2 = dict_get clause_weights2 c2 1
         in returnM (sim, (w1 + w2) / 2))))))))"

definition simFormulaSet ::
  "(string \<Rightarrow> string \<Rightarrow> real) \<Rightarrow> formula \<Rightarrow> formula \<Rightarrow>
   (clause \<times> real) list \<Rightarrow> (clause \<times> real) list \<Rightarrow>
   (string \<times> real) list \<Rightarrow> (string \<times> real) list \<Rightarrow>
   (string \<times> real) list \<Rightarrow> (string \<times> real) list \<Rightarrow>
   sim_params option \<Rightarrow> (string \<times> bool) list option \<Rightarrow> (real \<times> (level \<Rightarrow> entry list)) M" where
  "simFormulaSet simC F1 F2 clause_weights1 clause_weights2 predicate_weights1 predicate_weights2
      constant_weights1 constant_weights2 params debug =
     bindM clear_traces (\<lambda>_.
     let predicate_weights = dict_merge predicate_weights1 predicate_weights2;
         constant_weights = dict_merge constant_weights1 constant_weights2;
         sum_preds = sum_list (dict_values predicate_weights1) + sum_list (dict_values predicate_weights2);
         sum_consts = sum_list (dict_values constant_weights1) + sum_list (dict_values constant_weights2);
         diff = 2 - sum_preds - sum_consts;
         epsilon = 1 / 10000;
         diff = (if \<bar>diff\<bar> < epsilon then 0 else diff);
         all_clauses1 = sort_key safe_sort_clause F1;
         all_clauses2 = sort_key safe_sort_clause F2
     in bindM (foldM (flat_step simC debug) (List.product all_clauses1 all_clauses2) []) (\<lambda>flat_similarities.
        bindM (liftM (best_matches_of flat_similarities all_clauses1 all_clauses2)) (\<lambda>best_matches.
        bindM (mapM (weighted_step simC clause_weights1 clause_weights2 predicate_weights
                       constant_weights params debug diff) best_matches) (\<lambda>weighted_scores.
        let total_weight = sum_list (map snd weighted_scores)
        in bindM (liftM (if total_weight > 0
                         then py_div (sum_list (map (\<lambda>sw. fst sw * snd sw) weighted_scores)) total_weight
                         else Inr 0)) (\<lambda>final_score.
           bindM (append_summary Formula (Total 0 0 0 final_score)) (\<lambda>_.
           bindM (liftM (mapE (\<lambda>item. bindE (dict_item flat_similarities (fst item))
                                  (\<lambda>v. Inr (FormulaPair (fst (fst item)) (snd (fst item)) v)))
                           best_matches)) (\<lambda>pairs.
           bindM (extend_summary Formula pairs) (\<lambda>_.
           (\<lambda>s. (Inr (final_score, debug_summary s), s))))))))))"

text \<open>The state of a freshly loaded module: every level empty.\<close>

definition initial_trace :: trace where
  "initial_trace = \<lparr>seen_debugs = (\<lambda>_. {}), debug_summary = (\<lambda>_. [])\<rparr>"

text \<open>An atomic similarity for concrete runs: 1 on identical names, 0 otherwise.\<close>

definition exact_match :: "string \<Rightarrow> string \<Rightarrow> real" where
  "exact_match a b = (if a = b then 1 else 0)"

section \<open>Returned values\<close>

text \<open>
  The trace is only written to, so the value a computation returns does not depend on
  the state it starts from. The following functions give that value for each stateful
  function above; the lemmas \<open>fst_\<dots>\<close> below prove that they do.
\<close>

text \<open>The two loops of the argument alignment and the guarded normalisation.\<close>

definition positional_sums ::
  "string list \<Rightarrow> string list \<Rightarrow> (string \<Rightarrow> string \<Rightarrow> real) \<Rightarrow>
   (string \<times> real) list \<Rightarrow> (string \<times> real) list \<Rightarrow> real \<times> real" where
  "positional_sums args1 args2 simC weights1 weights2 =
     fold (\<lambda>i (sim_pos, total_weight_pos).
             let a1 = args1 ! i; a2 = args2 ! i;
                 sim = simC a1 a2;
                 w1 = dict_get weights1 a1 0;
                 w2 = dict_get weights2 a2 0;
                 importance = w1 * w2
             in (sim_pos + importance * sim, total_weight_pos + importance))
          [0..<min (length args1) (length args2)] (0, 0)"

definition best_partner ::
  "string \<Rightarrow> string list \<Rightarrow> (string \<Rightarrow> string \<Rightarrow> real) \<Rightarrow>
   (string \<times> real) list \<Rightarrow> (string \<times> real) list \<Rightarrow> real \<times> real \<Rightarrow> real \<times> real" where
  "best_partner a1 args2 simC weights1 weights2 start =
     fold (\<lambda>a2 (best_sim, best_imp).
             let w2 = dict_get weights2 a2 0;
                 sim = simC a1 a2;
                 importance = dict_get weights1 a1 0 * w2
             in if sim > best_sim then (sim, importance) else (best_sim, best_imp))
          args2 start"

definition unordered_sums ::
  "string list \<Rightarrow> string list \<Rightarrow> (string \<Rightarrow> string \<Rightarrow> real) \<Rightarrow>
   (string \<times> real) list \<Rightarrow> (string \<times> real) list \<Rightarrow> real \<times> real \<Rightarrow> real \<times> real" where
  "unordered_sums args1 args2 simC weights1 weights2 start =
     fold (\<lambda>a1 (sim_unordered, total_weight_unordered).
             let best = best_partner a1 args2 simC weights1 weights2 (0, 0)
             in (sim_unordered + fst best * snd best, total_weight_unordered + snd best))
          args1 start"

definition normalised :: "real \<times> real \<Rightarrow> real \<Rightarrow> error + real" where
  "normalised nm diff = (if snd nm > 0 then py_div (fst nm) (snd nm + diff) else Inr 0)"

definition simLiteral_flat_val :: "(string \<Rightarrow> string \<Rightarrow> real) \<Rightarrow> literal \<Rightarrow> literal \<Rightarrow> real \<Rightarrow> error + real" where
  "simLiteral_flat_val simC obj1 obj2 diff =
     bindE (pointwise_similarity_weighted (snd obj1) (snd obj2) simC
              (map (\<lambda>k. (k, 1)) (snd obj1)) (map (\<lambda>k. (k, 1)) (snd obj2)) (8 / 10) (2 / 10) diff)
       (\<lambda>sim_args. Inr ((1 / 2) * simC (fst obj1) (fst obj2) + (1 / 2) * sim_args))"

definition simLiteral_val ::
  "(string \<Rightarrow> string \<Rightarrow> real) \<Rightarrow> literal \<Rightarrow> literal \<Rightarrow> (string \<times> real) list \<Rightarrow> (string \<times> real) list \<Rightarrow> real \<Rightarrow> error + real" where
  "simLiteral_val simC obj1 obj2 predicate_weights constant_weights diff =
     bindE (pointwise_similarity_weighted (snd obj1) (snd obj2) simC
              constant_weights constant_weights (8 / 10) (2 / 10) diff)
       (\<lambda>sim_args.
          let imp_pred = dict_get predicate_weights (fst obj1) 0 * dict_get predicate_weights (fst obj2) 0;
              imp_args_total =
                sum_list (concat (map (\<lambda>a1. map (\<lambda>a2. dict_get constant_weights a1 0
                                                      * dict_get constant_weights a2 0) (snd obj2)) (snd obj1)));
              num = simC (fst obj1) (fst obj2) * imp_pred + sim_args * imp_args_total;
              denom = imp_pred + imp_args_total
          in if denom > 0 then py_div num (denom + diff) else Inr 0)"

definition membership_val ::
  "(literal \<Rightarrow> literal \<Rightarrow> error + real) \<Rightarrow> nat \<Rightarrow> (real list \<Rightarrow> error + real) \<Rightarrow> literal \<Rightarrow> literal list \<Rightarrow> error + real" where
  "membership_val simv p agg x Y = bindE (mapE (\<lambda>y. bindE (simv x y) (\<lambda>s. Inr (s ^ p))) Y) agg"

definition tversky_score :: "real \<Rightarrow> real \<Rightarrow> real list \<Rightarrow> real list \<Rightarrow> error + real" where
  "tversky_score alpha beta match_X match_Y =
     (let a = (sum_list match_X + sum_list match_Y) / 2;
          b = sum_list (map (\<lambda>s. 1 - s) match_X);
          c = sum_list (map (\<lambda>s. 1 - s) match_Y);
          denom = a + alpha * b + beta * c
      in if denom > 0 then py_div a denom else Inr 0)"

definition tversky_val ::
  "literal list \<Rightarrow> literal list \<Rightarrow> (literal \<Rightarrow> literal \<Rightarrow> error + real) \<Rightarrow> real \<Rightarrow> real \<Rightarrow> nat \<Rightarrow>
   (real list \<Rightarrow> error + real) \<Rightarrow> error + real" where
  "tversky_val X Y simv alpha beta p agg =
     (if X = [] \<or> Y = [] then Inr 0
      else bindE (mapE (\<lambda>x. membership_val simv p agg x Y) X) (\<lambda>match_X.
           bindE (mapE (\<lambda>y. membership_val simv p agg y X) Y) (\<lambda>match_Y.
           tversky_score alpha beta match_X match_Y)))"

definition flat_val :: "(string \<Rightarrow> string \<Rightarrow> real) \<Rightarrow> clause \<Rightarrow> clause \<Rightarrow> error + real" where
  "flat_val simC c1 c2 = tversky_val c1 c2 (\<lambda>x y. simLiteral_flat_val simC x y 0) 1 1 1 py_max"

definition flat_stage_val ::
  "(string \<Rightarrow> string \<Rightarrow> real) \<Rightarrow> (clause \<times> clause) list \<Rightarrow> ((clause \<times> clause) \<times> real) list
   \<Rightarrow> error + ((clause \<times> clause) \<times> real) list" where
  "flat_stage_val simC pairs acc =
     foldE (\<lambda>cc d. bindE (flat_val simC (fst cc) (snd cc)) (\<lambda>sim. Inr (AList.update cc sim d))) pairs acc"

definition weighted_val ::
  "(string \<Rightarrow> string \<Rightarrow> real) \<Rightarrow> (clause \<times> real) list \<Rightarrow> (clause \<times> real) list \<Rightarrow>
   (string \<times> real) list \<Rightarrow> (string \<times> real) list \<Rightarrow> sim_params option \<Rightarrow> real \<Rightarrow>
   (clause \<times> clause) \<times> real \<Rightarrow> error + (real \<times> real)" where
  "weighted_val simC clause_weights1 clause_weights2 predicate_weights constant_weights params diff item =
     bindE (params_clause params) (\<lambda>cfg.
     bindE (tversky_val (fst (fst item)) (snd (fst item))
              (\<lambda>l1 l2. simLiteral_val simC l1 l2 predicate_weights constant_weights diff)
              (opt_get (cp_alpha cfg) (1 / 2)) (opt_get (cp_beta cfg) (1 / 2))
              (opt_get (cp_p cfg) 1) (opt_get (cp_agg cfg) py_max)) (\<lambda>sim.
     Inr (sim, (dict_get clause_weights1 (fst (fst item)) 1
                + dict_get clause_weights2 (snd (fst item)) 1) / 2)))"

definition correction ::
  "(string \<times> real) list \<Rightarrow> (string \<times> real) list \<Rightarrow> (string \<times> real) list \<Rightarrow> (string \<times> real) list \<Rightarrow> real" where
  "correction predicate_weights1 predicate_weights2 constant_weights1 constant_weights2 =
     (let sum_preds = sum_list (dict_values predicate_weights1) + sum_list (dict_values predicate_weights2);
          sum_consts = sum_list (dict_values constant_weights1) + sum_list (dict_values constant_weights2);
          diff = 2 - sum_preds - sum_consts
      in if \<bar>diff\<bar> < 1 / 10000 then 0 else diff)"

definition final_val :: "(real \<times> real) list \<Rightarrow> error + real" where
  "final_val weighted_scores =
     (let total_weight = sum_list (map snd weighted_scores)
      in if total_weight > 0
         then py_div (sum_list (map (\<lambda>sw. fst sw * snd sw) weighted_scores)) total_weight
         else Inr 0)"

definition simFormulaSet_val ::
  "(string \<Rightarrow> string \<Rightarrow> real) \<Rightarrow> formula \<Rightarrow> formula \<Rightarrow>
   (clause \<times> real) list \<Rightarrow> (clause \<times> real) list \<Rightarrow>
   (string \<times> real) list \<Rightarrow> (string \<times> real) list \<Rightarrow>
   (string \<times> real) list \<Rightarrow> (string \<times> real) list \<Rightarrow>
   sim_params option \<Rightarrow> error + real" where
  "simFormulaSet_val simC F1 F2 cw1 cw2 pw1 pw2 kw1 kw2 params =
     (let all_clauses1 = sort_key safe_sort_clause F1;
          all_clauses2 = sort_key safe_sort_clause F2
      in bindE (flat_stage_val simC (List.product all_clauses1 all_clauses2) []) (\<lambda>flat_similarities.
         bindE (best_matches_of flat_similarities all_clauses1 all_clauses2) (\<lambda>best_matches.
         bindE (mapE (weighted_val simC cw1 cw2 (dict_merge pw1 pw2) (dict_merge kw1 kw2) params
                        (correction pw1 pw2 kw1 kw2)) best_matches) (\<lambda>weighted_scores.
         bindE (final_val weighted_scores) (\<lambda>final_score.
         bindE (mapE (\<lambda>item. bindE (dict_item flat_similarities (fst item))
                                  (\<lambda>v. Inr (FormulaPair (fst (fst item)) (snd (fst item)) v)))
                           best_matches) (\<lambda>_. Inr final_score))))))"

definition tversky_spec ::
  "(literal \<Rightarrow> literal \<Rightarrow> real) \<Rightarrow> (real list \<Rightarrow> real) \<Rightarrow> nat \<Rightarrow> real \<Rightarrow> real \<Rightarrow>
   literal list \<Rightarrow> literal list \<Rightarrow> real" where
  "tversky_spec sim agg p alpha beta X Y =
     (let membership_X = map (\<lambda>x. agg (map (\<lambda>y. sim x y ^ p) Y)) X;
          membership_Y = map (\<lambda>y. agg (map (\<lambda>x. sim y x ^ p) X)) Y;
          a = (sum_list membership_X + sum_list membership_Y) / 2;
          b = (\<Sum>m\<leftarrow>membership_X. 1 - m);
          c = (\<Sum>m\<leftarrow>membership_Y. 1 - m)
      in if a + alpha * b + beta * c \<le> 0 then 0 else a / (a + alpha * b + beta * c))"

definition flat_sim :: "(string \<Rightarrow> string \<Rightarrow> real) \<Rightarrow> clause \<Rightarrow> clause \<Rightarrow> real" where
  "flat_sim simC c1 c2 = projr (flat_val simC c1 c2)"

definition first_argmax :: "('a \<Rightarrow> real) \<Rightarrow> 'a \<Rightarrow> 'a list \<Rightarrow> 'a" where
  "first_argmax k x ys =
     fst (fold (\<lambda>y (best, kbest). if k y > kbest then (y, k y) else (best, kbest)) ys (x, k x))"

definition best_in :: "('a \<Rightarrow> real) \<Rightarrow> 'a list \<Rightarrow> 'a" where
  "best_in k cs = first_argmax k (hd cs) (tl cs)"

definition matches_total ::
  "(clause \<Rightarrow> clause \<Rightarrow> real) \<Rightarrow> clause list \<Rightarrow> clause list \<Rightarrow> ((clause \<times> clause) \<times> real) list" where
  "matches_total fs all1 all2 =
     fold (\<lambda>c2. AList.update (best_in (\<lambda>c1. fs c1 c2) all1, c2) (fs (best_in (\<lambda>c1. fs c1 c2) all1) c2)) all2
       (fold (\<lambda>c1. AList.update (c1, best_in (fs c1) all2) (fs c1 (best_in (fs c1) all2))) all1 [])"

fun entry_pair :: "entry \<Rightarrow> (literal set + clause set) option" where
  "entry_pair (LiteralEntry l1 l2 sim_pred sim_args score) = Some (Inl {l1, l2})"
| "entry_pair (Total a b c score) = None"
| "entry_pair (ClausePair x y s) = Some (Inl {x, y})"
| "entry_pair (ClausePairScore c1 c2 sim) = Some (Inr {c1, c2})"
| "entry_pair (FormulaPair c1 c2 sim) = Some (Inr {c1, c2})"

definition deduplicated :: "entry list \<Rightarrow> bool" where
  "deduplicated es = distinct (List.map_filter entry_pair es)"

definition literal_trace_inv :: "level \<Rightarrow> trace \<Rightarrow> bool" where
  "literal_trace_inv lvl s =
     (deduplicated (debug_summary s lvl)
      \<and> (\<forall>e \<in> set (debug_summary s lvl). \<exists>k \<in> seen_debugs s lvl. entry_pair e = Some (Inl k)))"

definition preserves :: "(trace \<Rightarrow> bool) \<Rightarrow> 'a M \<Rightarrow> bool" where
  "preserves P m = (\<forall>s. P s \<longrightarrow> P (snd (m s)))"


definition unit :: "real \<Rightarrow> bool" where
  "unit v = (0 \<le> v \<and> v \<le> 1)"

definition unit_agg :: "(real list \<Rightarrow> error + real) \<Rightarrow> bool" where
  "unit_agg agg = (\<forall>xs. xs \<noteq> [] \<and> (\<forall>x \<in> set xs. unit x) \<longrightarrow> (\<exists>v. agg xs = Inr v \<and> unit v))"





definition swap_item :: "(clause \<times> clause) \<times> real \<Rightarrow> (clause \<times> clause) \<times> real" where
  "swap_item item = ((snd (fst item), fst (fst item)), snd item)"








definition max_agg :: "(real list \<Rightarrow> error + real) \<Rightarrow> bool" where
  "max_agg agg = (\<forall>xs. xs \<noteq> [] \<longrightarrow> agg xs = Inr (Max (set xs)))"



section \<open>The returned values are those of the stateful functions\<close>

lemma bindE_Inr [simp]: "bindE (Inr v) f = f v"
  by (simp add: bindE_def)

lemma bindE_Inl [simp]: "bindE (Inl e) f = Inl e"
  by (simp add: bindE_def)

lemma bindE_eq_Inr: "bindE r f = Inr v \<longleftrightarrow> (\<exists>u. r = Inr u \<and> f u = Inr v)"
  by (cases r) simp_all

lemma bindE_eq_Inl: "bindE r f = Inl e \<longleftrightarrow> r = Inl e \<or> (\<exists>u. r = Inr u \<and> f u = Inl e)"
  by (cases r) simp_all

lemma mapE_eq_Inr: "mapE f xs = Inr ys \<longleftrightarrow> list_all2 (\<lambda>x y. f x = Inr y) xs ys"
proof (induction xs arbitrary: ys)
  case Nil
  show ?case by auto
next
  case (Cons x xs)
  show ?case
    by (cases ys) (auto simp: bindE_eq_Inr Cons.IH)
qed

lemma mapE_total: "(\<And>x. x \<in> set xs \<Longrightarrow> f x = Inr (g x)) \<Longrightarrow> mapE f xs = Inr (map g xs)"
  by (induction xs) simp_all

lemma mapE_cong: "(\<And>x. x \<in> set xs \<Longrightarrow> f x = g x) \<Longrightarrow> mapE f xs = mapE g xs"
  by (induction xs) simp_all

lemma fst_returnM [simp]: "fst (returnM v s) = Inr v"
  by (simp add: returnM_def)

lemma fst_liftM [simp]: "fst (liftM r s) = r"
  by (simp add: liftM_def)

lemma fst_bindM:
  assumes "\<And>s. fst (m s) = r" and "\<And>v s. r = Inr v \<Longrightarrow> fst (f v s) = g v"
  shows "fst (bindM m f s) = bindE r g"
proof (cases "m s")
  case (Pair res s')
  with assms(1)[of s] have "res = r" by simp
  with Pair assms(2) show ?thesis
    by (cases r) (simp_all add: bindM_def)
qed

lemma fst_mapM:
  assumes "\<And>x s. x \<in> set xs \<Longrightarrow> fst (f x s) = g x"
  shows "fst (mapM f xs s) = mapE g xs"
  using assms
proof (induction xs arbitrary: s)
  case Nil
  show ?case by simp
next
  case (Cons x xs)
  have tl: "\<And>s. fst (mapM f xs s) = mapE g xs"
    using Cons by simp
  have inner: "\<And>y s. fst (bindM (mapM f xs) (\<lambda>ys. returnM (y # ys)) s) = bindE (mapE g xs) (\<lambda>ys. Inr (y # ys))"
    by (rule fst_bindM) (simp_all add: tl)
  show ?case
    unfolding mapM.simps mapE.simps
    by (rule fst_bindM) (simp_all add: Cons.prems inner)
qed

lemma fst_foldM:
  assumes "\<And>x acc s. x \<in> set xs \<Longrightarrow> fst (f x acc s) = g x acc"
  shows "fst (foldM f xs acc s) = foldE g xs acc"
  using assms
proof (induction xs arbitrary: acc s)
  case Nil
  show ?case by simp
next
  case (Cons x xs)
  show ?case
    unfolding foldM.simps foldE.simps
    by (rule fst_bindM) (simp_all add: Cons)
qed

lemma fst_append_summary [simp]: "fst (append_summary lvl e s) = Inr ()"
  by (simp add: append_summary_def)

lemma fst_extend_summary [simp]: "fst (extend_summary lvl es s) = Inr ()"
  by (simp add: extend_summary_def)

lemma fst_clear_traces [simp]: "fst (clear_traces s) = Inr ()"
  by (simp add: clear_traces_def)

lemma fst_record_debug [simp]: "fst (record_debug lvl key e s) = Inr ()"
  by (simp add: record_debug_def)

lemma fst_simLiteral_flat:
  "fst (simLiteral_flat simC obj1 obj2 debug diff s) = simLiteral_flat_val simC obj1 obj2 diff"
  unfolding simLiteral_flat_def simLiteral_flat_val_def Let_def split_beta
  apply (rule fst_bindM)
   apply simp
  apply (rule trans[OF fst_bindM[where r="Inr ()" and g="\<lambda>_. Inr _"]])
  apply simp_all
  done

lemma fst_simLiteral:
  "fst (simLiteral simC obj1 obj2 pw cw debug diff s) = simLiteral_val simC obj1 obj2 pw cw diff"
  unfolding simLiteral_def simLiteral_val_def Let_def split_beta
  apply (rule fst_bindM)
   apply simp
  apply (rule trans[OF fst_bindM[where g="\<lambda>v. Inr v"]])
    apply (rule fst_liftM)
   apply (rule trans[OF fst_bindM[where r="Inr ()" and g="\<lambda>_. Inr _"]])
     apply simp_all
  apply (simp add: bindE_def split: sum.splits)
  done

lemma fst_membership:
  assumes "\<And>x y s. fst (sim x y s) = simv x y"
  shows "fst (membership sim p agg x Y s) = membership_val simv p agg x Y"
  unfolding membership_def membership_val_def
  apply (rule fst_bindM)
   apply (rule fst_mapM)
   apply (rule fst_bindM)
    apply (rule assms)
   apply simp
  apply simp
  done

lemma fst_record_pairs:
  assumes "\<And>x y s. fst (sim x y s) = simv x y"
    and "\<forall>xy \<in> set ps. \<exists>v. simv (fst xy) (snd xy) = Inr v"
  shows "fst (record_pairs sim lvl ps seen s) = Inr ()"
  using assms(2)
proof (induction ps arbitrary: seen s)
  case Nil
  show ?case by simp
next
  case (Cons xy ps)
  from Cons.prems obtain v where v: "simv (fst xy) (snd xy) = Inr v" by auto
  have rest: "\<And>seen s. fst (record_pairs sim lvl ps seen s) = Inr ()"
    using Cons by simp
  have inner: "\<And>u s. fst (bindM (append_summary lvl (ClausePair (fst xy) (snd xy) u))
                        (\<lambda>_. record_pairs sim lvl ps (insert {fst xy, snd xy} seen)) s) = bindE (Inr ()) (\<lambda>_. Inr ())"
    by (rule fst_bindM) (simp_all add: rest)
  have "fst (bindM (sim (fst xy) (snd xy)) (\<lambda>s.
              bindM (append_summary lvl (ClausePair (fst xy) (snd xy) s)) (\<lambda>_.
              record_pairs sim lvl ps (insert {fst xy, snd xy} seen))) s) = bindE (simv (fst xy) (snd xy)) (\<lambda>_. Inr ())"
    by (rule fst_bindM) (simp_all add: assms(1) inner)
  then show ?case
    by (simp add: Let_def rest v)
qed

lemma membership_val_Inr_sim:
  assumes "membership_val simv p agg x Y = Inr m" and "y \<in> set Y"
  shows "\<exists>v. simv x y = Inr v"
proof -
  from assms(1) obtain scores where "mapE (\<lambda>y. bindE (simv x y) (\<lambda>s. Inr (s ^ p))) Y = Inr scores"
    by (auto simp: membership_val_def bindE_eq_Inr)
  then have "list_all2 (\<lambda>y v. bindE (simv x y) (\<lambda>s. Inr (s ^ p)) = Inr v) Y scores"
    by (simp add: mapE_eq_Inr)
  with assms(2) obtain v where "bindE (simv x y) (\<lambda>s. Inr (s ^ p)) = Inr v"
    by (auto simp: list_all2_conv_all_nth in_set_conv_nth)
  then show ?thesis by (auto simp: bindE_eq_Inr)
qed

lemma mapE_Inr_member:
  assumes "mapE f xs = Inr ys" and "x \<in> set xs"
  shows "\<exists>y. f x = Inr y"
  using assms by (auto simp: mapE_eq_Inr list_all2_conv_all_nth in_set_conv_nth)

lemma fst_generalized_tversky_similarity:
  assumes sim: "\<And>x y s. fst (sim x y s) = simv x y"
  shows "fst (generalized_tversky_similarity X Y sim alpha beta p agg debug lvl s)
         = tversky_val X Y simv alpha beta p agg"
proof (cases "X = [] \<or> Y = []")
  case True
  then show ?thesis
    by (auto simp: generalized_tversky_similarity_def tversky_val_def)
next
  case False
  have tail: "fst (bindM (liftM (if a + alpha * b + beta * c > 0 then py_div a (a + alpha * b + beta * c) else Inr 0)) (\<lambda>score.
           bindM (if debug_flag debug (level_name lvl)
                  then bindM (append_summary lvl (Total a b c score)) (\<lambda>_.
                       record_pairs sim lvl (List.product X Y) {})
                  else returnM ())
             (\<lambda>_. returnM score)) s')
         = (if a + alpha * b + beta * c > 0 then py_div a (a + alpha * b + beta * c) else Inr 0)"
    if ok: "\<forall>xy \<in> set (List.product X Y). \<exists>v. simv (fst xy) (snd xy) = Inr v"
    for a b c s'
  proof -
    have dbg: "fst ((if debug_flag debug (level_name lvl)
                  then bindM (append_summary lvl (Total a b c score)) (\<lambda>_.
                       record_pairs sim lvl (List.product X Y) {})
                  else returnM ()) s'') = Inr ()" for score s''
    proof (cases "debug_flag debug (level_name lvl)")
      case True
      have "fst (bindM (append_summary lvl (Total a b c score)) (\<lambda>_.
                       record_pairs sim lvl (List.product X Y) {}) s'') = bindE (Inr ()) (\<lambda>_. Inr ())"
        by (rule fst_bindM) (simp_all add: fst_record_pairs[OF sim ok])
      with True show ?thesis by simp
    next
      case False
      then show ?thesis by simp
    qed
    have inner: "fst (bindM (if debug_flag debug (level_name lvl)
                  then bindM (append_summary lvl (Total a b c score)) (\<lambda>_.
                       record_pairs sim lvl (List.product X Y) {})
                  else returnM ())
             (\<lambda>_. returnM score) s'') = bindE (Inr ()) (\<lambda>_. Inr score)" for score s''
      by (rule fst_bindM) (simp_all add: dbg)
    have "fst (bindM (liftM (if a + alpha * b + beta * c > 0 then py_div a (a + alpha * b + beta * c) else Inr 0)) (\<lambda>score.
           bindM (if debug_flag debug (level_name lvl)
                  then bindM (append_summary lvl (Total a b c score)) (\<lambda>_.
                       record_pairs sim lvl (List.product X Y) {})
                  else returnM ())
             (\<lambda>_. returnM score)) s')
         = bindE (if a + alpha * b + beta * c > 0 then py_div a (a + alpha * b + beta * c) else Inr 0) (\<lambda>score. Inr score)"
      by (rule fst_bindM) (simp_all add: inner)
    then show ?thesis by (simp add: bindE_def split: sum.splits)
  qed
  have step2: "fst (bindM (mapM (\<lambda>y. membership sim p agg y X) Y) (\<lambda>match_Y.
        let a = (sum_list match_X + sum_list match_Y) / 2;
            b = sum_list (map (\<lambda>s. 1 - s) match_X);
            c = sum_list (map (\<lambda>s. 1 - s) match_Y);
            denom = a + alpha * b + beta * c
        in bindM (liftM (if denom > 0 then py_div a denom else Inr 0)) (\<lambda>score.
           bindM (if debug_flag debug (level_name lvl)
                  then bindM (append_summary lvl (Total a b c score)) (\<lambda>_.
                       record_pairs sim lvl (List.product X Y) {})
                  else returnM ())
             (\<lambda>_. returnM score))) s')
       = bindE (mapE (\<lambda>y. membership_val simv p agg y X) Y) (\<lambda>match_Y. tversky_score alpha beta match_X match_Y)"
    if mx: "mapE (\<lambda>x. membership_val simv p agg x Y) X = Inr match_X" for match_X s'
  proof -
    have ok: "\<forall>xy \<in> set (List.product X Y). \<exists>v. simv (fst xy) (snd xy) = Inr v"
    proof
      fix xy assume "xy \<in> set (List.product X Y)"
      then have "fst xy \<in> set X" "snd xy \<in> set Y" by auto
      from mapE_Inr_member[OF mx this(1)] obtain m where "membership_val simv p agg (fst xy) Y = Inr m"
        by auto
      from membership_val_Inr_sim[OF this \<open>snd xy \<in> set Y\<close>]
      show "\<exists>v. simv (fst xy) (snd xy) = Inr v" .
    qed
    show ?thesis
      apply (rule fst_bindM)
       apply (rule fst_mapM)
       apply (rule fst_membership[OF sim])
      apply (simp only: Let_def tversky_score_def)
      apply (rule tail[OF ok])
      done
  qed
  have "fst (bindM (mapM (\<lambda>x. membership sim p agg x Y) X) (\<lambda>match_X.
        bindM (mapM (\<lambda>y. membership sim p agg y X) Y) (\<lambda>match_Y.
        let a = (sum_list match_X + sum_list match_Y) / 2;
            b = sum_list (map (\<lambda>s. 1 - s) match_X);
            c = sum_list (map (\<lambda>s. 1 - s) match_Y);
            denom = a + alpha * b + beta * c
        in bindM (liftM (if denom > 0 then py_div a denom else Inr 0)) (\<lambda>score.
           bindM (if debug_flag debug (level_name lvl)
                  then bindM (append_summary lvl (Total a b c score)) (\<lambda>_.
                       record_pairs sim lvl (List.product X Y) {})
                  else returnM ())
             (\<lambda>_. returnM score)))) s)
      = bindE (mapE (\<lambda>x. membership_val simv p agg x Y) X) (\<lambda>match_X.
           bindE (mapE (\<lambda>y. membership_val simv p agg y X) Y) (\<lambda>match_Y.
           tversky_score alpha beta match_X match_Y))"
    apply (rule fst_bindM)
     apply (rule fst_mapM)
     apply (rule fst_membership[OF sim])
    apply (rule step2)
    apply assumption
    done
  with False show ?thesis
    by (simp add: generalized_tversky_similarity_def tversky_val_def)
qed

lemma fst_flat_step:
  "fst (flat_step simC debug cc d s) = bindE (flat_val simC (fst cc) (snd cc)) (\<lambda>sim. Inr (AList.update cc sim d))"
  unfolding flat_step_def flat_val_def
  apply (rule fst_bindM)
   apply (rule fst_generalized_tversky_similarity)
   apply (rule fst_simLiteral_flat)
  apply (rule trans[OF fst_bindM[where r="Inr ()" and g="\<lambda>_. Inr _"]])
    apply simp_all
  done

lemma fst_flat_stage:
  "fst (foldM (flat_step simC debug) pairs acc s) = flat_stage_val simC pairs acc"
  unfolding flat_stage_val_def
  by (rule fst_foldM) (rule fst_flat_step)

lemma fst_weighted_step:
  "fst (weighted_step simC cw1 cw2 pw kw params debug diff item s)
   = weighted_val simC cw1 cw2 pw kw params diff item"
proof (cases "params_clause params")
  case (Inl e)
  have "fst (weighted_step simC cw1 cw2 pw kw params debug diff item s) = bindE (params_clause params) (\<lambda>_. Inl e)"
    unfolding weighted_step_def Let_def
    by (rule fst_bindM) (simp_all add: Inl)
  with Inl show ?thesis by (simp add: weighted_val_def)
next
  case (Inr cfg)
  have tv: "fst (bindM (generalized_tversky_similarity (fst (fst item)) (snd (fst item))
                  (\<lambda>l1 l2. simLiteral simC l1 l2 pw kw debug diff)
                  al be pp ag debug Clause_weighted) (\<lambda>sim.
         bindM (append_summary Clause_weighted (ClausePairScore (fst (fst item)) (snd (fst item)) sim)) (\<lambda>_.
         returnM (sim, (dict_get cw1 (fst (fst item)) 1 + dict_get cw2 (snd (fst item)) 1) / 2))) s')
      = bindE (tversky_val (fst (fst item)) (snd (fst item))
              (\<lambda>l1 l2. simLiteral_val simC l1 l2 pw kw diff) al be pp ag)
          (\<lambda>sim. Inr (sim, (dict_get cw1 (fst (fst item)) 1 + dict_get cw2 (snd (fst item)) 1) / 2))"
    for al be pp ag s'
    apply (rule fst_bindM)
     apply (rule fst_generalized_tversky_similarity)
     apply (rule fst_simLiteral)
    apply (rule trans[OF fst_bindM[where r="Inr ()" and g="\<lambda>_. Inr _"]])
      apply simp_all
    done
  have b4: "bindM (liftM (params_clause params)) f s' = f cfg s'" for f :: "clause_params \<Rightarrow> 'x M" and s'
    by (simp add: bindM_def liftM_def Inr)
  show ?thesis
    unfolding weighted_step_def Let_def
    by (simp add: b4 bindM_def liftM_def Inr weighted_val_def tv[unfolded bindM_def])
qed

lemma map_sum_fst_bindM:
  fixes m :: "'x M" and f :: "'x \<Rightarrow> ('y \<times> 'z) M"
  assumes "\<And>s. fst (m s) = r" and "\<And>v s. r = Inr v \<Longrightarrow> map_sum id fst (fst (f v s)) = g v"
  shows "map_sum id fst (fst (bindM m f s')) = bindE r g"
proof (cases "m s'")
  case (Pair res s'')
  with assms(1)[of s'] have "res = r" by simp
  with Pair assms(2) show ?thesis
    by (cases r) (simp_all add: bindM_def)
qed

lemma fst_simFormulaSet:
  "map_sum id fst (fst (simFormulaSet simC F1 F2 cw1 cw2 pw1 pw2 kw1 kw2 params debug s))
   = simFormulaSet_val simC F1 F2 cw1 cw2 pw1 pw2 kw1 kw2 params"
proof -
  define all1 where "all1 = sort_key safe_sort_clause F1"
  define all2 where "all2 = sort_key safe_sort_clause F2"
  define diff where "diff = correction pw1 pw2 kw1 kw2"
  define V where "V = (\<lambda>flat_similarities.
         bindE (best_matches_of flat_similarities all1 all2) (\<lambda>best_matches.
         bindE (mapE (weighted_val simC cw1 cw2 (dict_merge pw1 pw2) (dict_merge kw1 kw2) params diff) best_matches) (\<lambda>weighted_scores.
         bindE (final_val weighted_scores) (\<lambda>final_score.
         bindE (mapE (\<lambda>item. bindE (dict_item flat_similarities (fst item))
                                  (\<lambda>v. Inr (FormulaPair (fst (fst item)) (snd (fst item)) v)))
                           best_matches) (\<lambda>_. Inr final_score)))))"
  have last: "map_sum id fst (fst (bindM (extend_summary Formula pairs) (\<lambda>_. (\<lambda>s. (Inr (final_score, debug_summary s), s))) s')) = Inr final_score"
    for pairs and final_score :: real and s'
    by (simp add: bindM_def extend_summary_def)
  have "map_sum id fst (fst (simFormulaSet simC F1 F2 cw1 cw2 pw1 pw2 kw1 kw2 params debug s))
        = bindE (Inr ()) (\<lambda>_. bindE (flat_stage_val simC (List.product all1 all2) []) V)"
    unfolding simFormulaSet_def
    apply (rule map_sum_fst_bindM)
     apply simp
    apply (simp only: Let_def correction_def[symmetric, unfolded Let_def dict_values_def] dict_values_def
        all1_def[symmetric] all2_def[symmetric] diff_def[symmetric])
    apply (rule map_sum_fst_bindM)
     apply (rule fst_flat_stage)
    apply (simp only: V_def)
    apply (rule map_sum_fst_bindM)
     apply (rule fst_liftM)
    apply (rule map_sum_fst_bindM)
     apply (rule fst_mapM)
     apply (rule fst_weighted_step)
    apply (simp only: final_val_def Let_def)
    apply (rule map_sum_fst_bindM)
     apply (rule fst_liftM)
    apply (rule trans[OF map_sum_fst_bindM[where r="Inr ()"]])
       apply simp
      apply (rule map_sum_fst_bindM)
       apply (rule fst_liftM)
      apply (rule last)
     apply simp
    done
  then show ?thesis
    by (simp add: simFormulaSet_val_def Let_def V_def all1_def all2_def diff_def)
qed

section \<open>Argument alignment in parts\<close>

lemma pointwise_similarity_weighted_eq:
  "pointwise_similarity_weighted args1 args2 simC weights1 weights2 pw uw diff =
     (if args1 = [] \<or> args2 = [] then Inr 0
      else bindE (normalised (positional_sums args1 args2 simC weights1 weights2) diff) (\<lambda>sim_pos.
           bindE (normalised (unordered_sums args1 args2 simC weights1 weights2 (0, 0)) diff) (\<lambda>sim_unordered.
           Inr (pw * sim_pos + uw * sim_unordered))))"
  by (simp add: pointwise_similarity_weighted_def positional_sums_def unordered_sums_def
      best_partner_def normalised_def Let_def split_beta)

lemma normalised_total:
  "0 \<le> diff \<Longrightarrow> normalised nm diff = Inr (if snd nm > 0 then fst nm / (snd nm + diff) else 0)"
  by (simp add: normalised_def py_div_def)

lemma pointwise_total:
  assumes "0 \<le> diff"
  shows "\<exists>v. pointwise_similarity_weighted args1 args2 simC weights1 weights2 pw uw diff = Inr v"
  by (simp add: pointwise_similarity_weighted_eq normalised_total[OF assms])

section \<open>Empty inputs\<close>

text \<open>
  C4: a comparison with an empty side returns 0.0 and raises nothing. The argument and
  clause comparisons guard the empty case, but \<open>simFormulaSet\<close> does not: with exactly
  one empty formula the best-match loop takes \<open>max\<close> of an empty sequence, and the
  call ends in \<open>ValueError\<close>, whichever side is empty.
\<close>

theorem simFormulaSet_one_empty_side_ValueError:
  "map_sum id fst (fst (simFormulaSet exact_match [[(''P'', [''a''])]] [] [] [] [] [] [] []
       (Some \<lparr>clause_cfg = None\<rparr>) None initial_trace)) = Inl ValueError
   \<and> map_sum id fst (fst (simFormulaSet exact_match [] [[(''P'', [''a''])]] [] [] [] [] [] []
       (Some \<lparr>clause_cfg = None\<rparr>) None initial_trace)) = Inl ValueError"
  by code_simp

section \<open>Denominators\<close>

text \<open>
  C5: a denominator that is not positive gives the component score 0.0 and never a
  division fault, also when the correction term is negative. The guards test the
  weight mass before the correction term is added to it: with predicate weights
  \<open>{P: 1}\<close> and constant weights \<open>{a: 2}\<close> on both sides the correction term is -4,
  the positional mass of \<open>P(a)\<close> against itself is 4, and the division by 4 + (-4)
  raises \<open>ZeroDivisionError\<close>.
\<close>

theorem correction_adjusted_mass_ZeroDivisionError:
  "pointwise_similarity_weighted [''a''] [''a''] exact_match [(''a'', 2)] [(''a'', 2)]
       (8 / 10) (2 / 10) (- 4) = Inl ZeroDivisionError
   \<and> map_sum id fst (fst (simFormulaSet exact_match [[(''P'', [''a''])]] [[(''P'', [''a''])]] [] []
       [(''P'', 1)] [(''P'', 1)] [(''a'', 2)] [(''a'', 2)]
       (Some \<lparr>clause_cfg = None\<rparr>) None initial_trace)) = Inl ZeroDivisionError"
  by code_simp

section \<open>Totality and the closed form of the set similarity\<close>

lemma foldE_total:
  "(\<And>x acc. x \<in> set xs \<Longrightarrow> f x acc = Inr (g x acc)) \<Longrightarrow> foldE f xs acc = Inr (fold g xs acc)"
  by (induction xs arbitrary: acc) simp_all

lemma foldE_cong:
  "(\<And>x acc. x \<in> set xs \<Longrightarrow> f x acc = g x acc) \<Longrightarrow> foldE f xs acc = foldE g xs acc"
proof (induction xs arbitrary: acc)
  case Nil
  show ?case by simp
next
  case (Cons x xs)
  have "foldE f xs = foldE g xs"
    using Cons by (simp add: fun_eq_iff)
  then show ?case
    by (simp add: Cons.prems)
qed

lemma py_max_Max: "xs \<noteq> [] \<Longrightarrow> py_max xs = Inr (Max (set xs))"
proof -
  have eq: "(\<lambda>y best. if y > best then y else best) = (max :: real \<Rightarrow> real \<Rightarrow> real)"
    by (auto simp: fun_eq_iff max_def)
  show "xs \<noteq> [] \<Longrightarrow> py_max xs = Inr (Max (set xs))"
    by (cases xs) (simp_all add: py_max_def eq Max.set_eq_fold[symmetric])
qed

lemma membership_val_total:
  assumes "\<And>y. y \<in> set Y \<Longrightarrow> simv x y = Inr (f x y)"
  shows "membership_val simv p agg x Y = agg (map (\<lambda>y. f x y ^ p) Y)"
proof -
  have "mapE (\<lambda>y. bindE (simv x y) (\<lambda>s. Inr (s ^ p))) Y = Inr (map (\<lambda>y. f x y ^ p) Y)"
    by (rule mapE_total) (simp add: assms)
  then show ?thesis by (simp add: membership_val_def)
qed

lemma tversky_score_eq:
  "tversky_score alpha beta mX mY =
     Inr (let a = (sum_list mX + sum_list mY) / 2;
              b = (\<Sum>m\<leftarrow>mX. 1 - m);
              c = (\<Sum>m\<leftarrow>mY. 1 - m)
          in if a + alpha * b + beta * c \<le> 0 then 0 else a / (a + alpha * b + beta * c))"
  by (simp add: tversky_score_def Let_def py_div_def)

lemma tversky_val_spec:
  assumes "X \<noteq> []" and "Y \<noteq> []"
    and sim: "\<And>x y. x \<in> set X \<union> set Y \<Longrightarrow> y \<in> set X \<union> set Y \<Longrightarrow> simv x y = Inr (f x y)"
    and agg: "\<And>xs. xs \<noteq> [] \<Longrightarrow> agg xs = Inr (g xs)"
  shows "tversky_val X Y simv alpha beta p agg = Inr (tversky_spec f g p alpha beta X Y)"
proof -
  have mX: "mapE (\<lambda>x. membership_val simv p agg x Y) X = Inr (map (\<lambda>x. g (map (\<lambda>y. f x y ^ p) Y)) X)"
    by (rule mapE_total) (simp add: membership_val_total[where f=f] sim agg assms(2))
  have mY: "mapE (\<lambda>y. membership_val simv p agg y X) Y = Inr (map (\<lambda>y. g (map (\<lambda>x. f y x ^ p) X)) Y)"
    by (rule mapE_total) (simp add: membership_val_total[where f=f] sim agg assms(1))
  show ?thesis
    using assms(1,2)
    by (simp add: tversky_val_def mX mY tversky_score_eq tversky_spec_def)
qed

lemma simLiteral_flat_val_total: "0 \<le> diff \<Longrightarrow> \<exists>v. simLiteral_flat_val simC x y diff = Inr v"
proof -
  assume d: "0 \<le> diff"
  from pointwise_total[OF d] obtain v where
    "pointwise_similarity_weighted (snd x) (snd y) simC (map (\<lambda>k. (k, 1)) (snd x))
        (map (\<lambda>k. (k, 1)) (snd y)) (8 / 10) (2 / 10) diff = Inr v"
    by blast
  then show ?thesis
    by (simp add: simLiteral_flat_val_def)
qed

lemma simLiteral_val_total: "0 \<le> diff \<Longrightarrow> \<exists>v. simLiteral_val simC x y pw kw diff = Inr v"
proof -
  assume d: "0 \<le> diff"
  from pointwise_total[OF d] obtain v where
    "pointwise_similarity_weighted (snd x) (snd y) simC kw kw (8 / 10) (2 / 10) diff = Inr v"
    by blast
  then show ?thesis
    using d by (simp add: simLiteral_val_def Let_def py_div_def)
qed

lemma flat_val_total: "\<exists>v. flat_val simC c1 c2 = Inr v"
proof (cases "c1 = [] \<or> c2 = []")
  case True
  then show ?thesis by (auto simp: flat_val_def tversky_val_def)
next
  case False
  have "\<And>x y. simLiteral_flat_val simC x y 0 = Inr (projr (simLiteral_flat_val simC x y 0))"
    using simLiteral_flat_val_total[of 0 simC] by (metis order_refl sum.sel(2))
  then have "tversky_val c1 c2 (\<lambda>x y. simLiteral_flat_val simC x y 0) 1 1 1 py_max
        = Inr (tversky_spec (\<lambda>x y. projr (simLiteral_flat_val simC x y 0)) (\<lambda>xs. Max (set xs)) 1 1 1 c1 c2)"
    using False by (intro tversky_val_spec) (simp_all add: py_max_Max)
  then show ?thesis by (simp add: flat_val_def)
qed

section \<open>The flat matrix and the best partner\<close>

lemma flat_val_eq: "flat_val simC c1 c2 = Inr (flat_sim simC c1 c2)"
  using flat_val_total[of simC c1 c2] by (auto simp: flat_sim_def)

lemma flat_stage_val_eq:
  "flat_stage_val simC pairs acc
   = Inr (fold (\<lambda>cc d. AList.update cc (flat_sim simC (fst cc) (snd cc)) d) pairs acc)"
  unfolding flat_stage_val_def
  by (rule foldE_total) (simp add: flat_val_eq)

lemma map_of_fold_update:
  "map_of (fold (\<lambda>cc d. AList.update cc (h cc) d) pairs acc) cc
   = (if cc \<in> set pairs then Some (h cc) else map_of acc cc)"
  by (induction pairs arbitrary: acc) (auto simp: update_conv')

lemma dict_item_flat:
  assumes "flat_stage_val simC pairs [] = Inr flat"
  shows "dict_item flat cc = (if cc \<in> set pairs then Inr (flat_sim simC (fst cc) (snd cc)) else Inl KeyError)"
proof -
  from assms have "flat = fold (\<lambda>cc d. AList.update cc (flat_sim simC (fst cc) (snd cc)) d) pairs []"
    by (simp add: flat_stage_val_eq)
  then show ?thesis
    by (simp add: dict_item_def map_of_fold_update)
qed

lemma py_max_key_Nil [simp]: "py_max_key key [] = Inl ValueError"
  by (simp add: py_max_key_def)

lemma py_max_key_fold_in_set:
  "foldE (\<lambda>y (best, kbest). bindE (key y) (\<lambda>ky. Inr (if ky > kbest then (y, ky) else (best, kbest))))
     ys acc = Inr r \<Longrightarrow> fst r \<in> insert (fst acc) (set ys)"
proof (induction ys arbitrary: acc)
  case Nil
  then show ?case by simp
next
  case (Cons y ys)
  from Cons.prems obtain acc' where
    step: "(case acc of (best, kbest) \<Rightarrow> bindE (key y) (\<lambda>ky. Inr (if ky > kbest then (y, ky) else (best, kbest)))) = Inr acc'"
    and rest: "foldE (\<lambda>y (best, kbest). bindE (key y) (\<lambda>ky. Inr (if ky > kbest then (y, ky) else (best, kbest)))) ys acc' = Inr r"
    by (auto simp: bindE_eq_Inr)
  from step have "fst acc' = y \<or> fst acc' = fst acc"
    by (auto simp: split_beta bindE_eq_Inr split: if_splits)
  with Cons.IH[OF rest] show ?case by auto
qed

lemma py_max_key_in_set: "py_max_key key xs = Inr b \<Longrightarrow> b \<in> set xs"
proof (cases xs)
  case Nil
  then show "py_max_key key xs = Inr b \<Longrightarrow> b \<in> set xs" by simp
next
  case (Cons x ys)
  assume "py_max_key key xs = Inr b"
  with Cons obtain kx r where
    "foldE (\<lambda>y (best, kbest). bindE (key y) (\<lambda>ky. Inr (if ky > kbest then (y, ky) else (best, kbest))))
       ys (x, kx) = Inr r" and "fst r = b"
    by (auto simp: py_max_key_def bindE_eq_Inr split_beta)
  with py_max_key_fold_in_set[of key ys "(x, kx)" r] Cons show ?thesis by auto
qed

lemma py_max_key_total:
  assumes "\<And>y. y \<in> set (x # ys) \<Longrightarrow> key y = Inr (k y)"
  shows "py_max_key key (x # ys) = Inr (first_argmax k x ys)"
proof -
  have "foldE (\<lambda>y (best, kbest). bindE (key y) (\<lambda>ky. Inr (if ky > kbest then (y, ky) else (best, kbest))))
       ys (x, k x)
       = Inr (fold (\<lambda>y (best, kbest). if k y > kbest then (y, k y) else (best, kbest)) ys (x, k x))"
    by (rule foldE_total) (simp add: assms split_beta)
  then show ?thesis
    by (simp add: py_max_key_def assms first_argmax_def split_beta)
qed

lemma first_argmax_fold:
  fixes k :: "'a \<Rightarrow> real"
  shows "fold (\<lambda>y (best, kbest). if k y > kbest then (y, k y) else (best, kbest)) ys (b, k b) = (b', kb')
   \<Longrightarrow> kb' = k b' \<and> b' \<in> insert b (set ys) \<and> k b \<le> k b' \<and> (\<forall>y \<in> set ys. k y \<le> k b')"
proof (induction ys arbitrary: b)
  case Nil
  then show ?case by auto
next
  case (Cons y ys)
  show ?case
  proof (cases "k y > k b")
    case True
    with Cons.prems have "fold (\<lambda>y (best, kbest). if k y > kbest then (y, k y) else (best, kbest)) ys (y, k y) = (b', kb')"
      by simp
    from Cons.IH[OF this] True show ?thesis by auto
  next
    case False
    with Cons.prems have "fold (\<lambda>y (best, kbest). if k y > kbest then (y, k y) else (best, kbest)) ys (b, k b) = (b', kb')"
      by simp
    from Cons.IH[OF this] False show ?thesis by auto
  qed
qed

lemma first_argmax_in_set: "first_argmax k x ys \<in> set (x # ys)"
  using first_argmax_fold[of k ys x] by (auto simp: first_argmax_def prod_eq_iff)



section \<open>The clause correspondence\<close>

lemma py_max_key_best_in:
  assumes "xs \<noteq> []" and "\<And>y. y \<in> set xs \<Longrightarrow> key y = Inr (k y)"
  shows "py_max_key key xs = Inr (best_in k xs)"
proof -
  from assms(1) obtain x ys where xs: "xs = x # ys" by (cases xs) auto
  show ?thesis
    unfolding xs best_in_def list.sel
    by (rule py_max_key_total) (simp add: assms(2) xs)
qed

lemma best_in_in_set: "xs \<noteq> [] \<Longrightarrow> best_in k xs \<in> set xs"
  using first_argmax_in_set[of k "hd xs" "tl xs"] by (simp add: best_in_def)



lemma best_match_left_Inr:
  assumes "best_match_left flat all2 c1 bm = Inr bm'"
  shows "\<exists>c2 \<in> set all2. \<exists>v. bm' = AList.update (c1, c2) v bm"
proof -
  from assms obtain c2 v where "py_max_key (\<lambda>c2. dict_item flat (c1, c2)) all2 = Inr c2"
    and "bm' = AList.update (c1, c2) v bm"
    by (auto simp: best_match_left_def bindE_eq_Inr)
  with py_max_key_in_set[of _ all2 c2] show ?thesis by blast
qed

lemma best_match_right_Inr:
  assumes "best_match_right flat all1 c2 bm = Inr bm'"
  shows "\<exists>c1 \<in> set all1. \<exists>v. bm' = AList.update (c1, c2) v bm"
proof -
  from assms obtain c1 v where "py_max_key (\<lambda>c1. dict_item flat (c1, c2)) all1 = Inr c1"
    and "bm' = AList.update (c1, c2) v bm"
    by (auto simp: best_match_right_def bindE_eq_Inr)
  with py_max_key_in_set[of _ all1 c1] show ?thesis by blast
qed

lemma foldE_left_keys:
  assumes "foldE (best_match_left flat all2) cs acc = Inr r"
  shows "fst ` set acc \<subseteq> fst ` set r \<and> (\<forall>c1 \<in> set cs. \<exists>c2 \<in> set all2. (c1, c2) \<in> fst ` set r)"
  using assms
proof (induction cs arbitrary: acc)
  case Nil
  then show ?case by simp
next
  case (Cons c cs)
  from Cons.prems obtain acc' where step: "best_match_left flat all2 c acc = Inr acc'"
    and rest: "foldE (best_match_left flat all2) cs acc' = Inr r"
    by (auto simp: bindE_eq_Inr)
  from best_match_left_Inr[OF step] obtain c2 v where c2: "c2 \<in> set all2"
    and acc': "acc' = AList.update (c, c2) v acc" by blast
  have keys: "fst ` set acc' = insert (c, c2) (fst ` set acc)"
    by (simp add: acc' dom_update)
  from Cons.IH[OF rest] keys c2 show ?case by auto
qed

lemma foldE_right_keys:
  assumes "foldE (best_match_right flat all1) cs acc = Inr r"
  shows "fst ` set acc \<subseteq> fst ` set r \<and> (\<forall>c2 \<in> set cs. \<exists>c1 \<in> set all1. (c1, c2) \<in> fst ` set r)"
  using assms
proof (induction cs arbitrary: acc)
  case Nil
  then show ?case by simp
next
  case (Cons c cs)
  from Cons.prems obtain acc' where step: "best_match_right flat all1 c acc = Inr acc'"
    and rest: "foldE (best_match_right flat all1) cs acc' = Inr r"
    by (auto simp: bindE_eq_Inr)
  from best_match_right_Inr[OF step] obtain c1 v where c1: "c1 \<in> set all1"
    and acc': "acc' = AList.update (c1, c) v acc" by blast
  have keys: "fst ` set acc' = insert (c1, c) (fst ` set acc)"
    by (simp add: acc' dom_update)
  from Cons.IH[OF rest] keys c1 show ?case by auto
qed

lemma best_matches_of_cover:
  assumes "best_matches_of flat all1 all2 = Inr bm"
  shows "(\<forall>c1 \<in> set all1. \<exists>c2 \<in> set all2. (c1, c2) \<in> fst ` set bm)
       \<and> (\<forall>c2 \<in> set all2. \<exists>c1 \<in> set all1. (c1, c2) \<in> fst ` set bm)"
proof -
  from assms obtain bm1 where l: "foldE (best_match_left flat all2) all1 [] = Inr bm1"
    and r: "foldE (best_match_right flat all1) all2 bm1 = Inr bm"
    unfolding best_matches_of_def bindE_eq_Inr by blast
  from foldE_left_keys[OF l] have l1: "\<forall>c1 \<in> set all1. \<exists>c2 \<in> set all2. (c1, c2) \<in> fst ` set bm1"
    by (rule conjunct2)
  from foldE_right_keys[OF r] have sub: "fst ` set bm1 \<subseteq> fst ` set bm"
    and r1: "\<forall>c2 \<in> set all2. \<exists>c1 \<in> set all1. (c1, c2) \<in> fst ` set bm"
    by (rule conjunct1, rule conjunct2)
  have "\<forall>c1 \<in> set all1. \<exists>c2 \<in> set all2. (c1, c2) \<in> fst ` set bm"
  proof
    fix c1 assume "c1 \<in> set all1"
    with l1 obtain c2 where "c2 \<in> set all2" "(c1, c2) \<in> fst ` set bm1" by blast
    with sub show "\<exists>c2 \<in> set all2. (c1, c2) \<in> fst ` set bm" by (meson subsetD)
  qed
  then show ?thesis using r1 by (rule conjI)
qed

lemma best_match_left_total:
  assumes "all2 \<noteq> []" and "\<And>c2. c2 \<in> set all2 \<Longrightarrow> dict_item flat (c1, c2) = Inr (fs c1 c2)"
  shows "best_match_left flat all2 c1 bm
         = Inr (AList.update (c1, best_in (fs c1) all2) (fs c1 (best_in (fs c1) all2)) bm)"
proof -
  have "py_max_key (\<lambda>c2. dict_item flat (c1, c2)) all2 = Inr (best_in (fs c1) all2)"
    by (rule py_max_key_best_in) (simp_all add: assms)
  then show ?thesis
    by (simp add: best_match_left_def assms(2) best_in_in_set[OF assms(1)])
qed

lemma best_match_right_total:
  assumes "all1 \<noteq> []" and "\<And>c1. c1 \<in> set all1 \<Longrightarrow> dict_item flat (c1, c2) = Inr (fs c1 c2)"
  shows "best_match_right flat all1 c2 bm
         = Inr (AList.update (best_in (\<lambda>c1. fs c1 c2) all1, c2) (fs (best_in (\<lambda>c1. fs c1 c2) all1) c2) bm)"
proof -
  have "py_max_key (\<lambda>c1. dict_item flat (c1, c2)) all1 = Inr (best_in (\<lambda>c1. fs c1 c2) all1)"
    by (rule py_max_key_best_in) (simp_all add: assms)
  then show ?thesis
    by (simp add: best_match_right_def assms(2) best_in_in_set[OF assms(1)])
qed

lemma best_matches_of_total:
  assumes "all1 \<noteq> []" and "all2 \<noteq> []"
    and "\<And>c1 c2. c1 \<in> set all1 \<Longrightarrow> c2 \<in> set all2 \<Longrightarrow> dict_item flat (c1, c2) = Inr (fs c1 c2)"
  shows "best_matches_of flat all1 all2 = Inr (matches_total fs all1 all2)"
proof -
  have l: "foldE (best_match_left flat all2) all1 acc
        = Inr (fold (\<lambda>c1. AList.update (c1, best_in (fs c1) all2) (fs c1 (best_in (fs c1) all2))) all1 acc)" for acc
    by (rule foldE_total) (simp add: best_match_left_total[OF assms(2)] assms(3))
  have r: "foldE (best_match_right flat all1) all2 acc
        = Inr (fold (\<lambda>c2. AList.update (best_in (\<lambda>c1. fs c1 c2) all1, c2) (fs (best_in (\<lambda>c1. fs c1 c2) all1) c2)) all2 acc)" for acc
    by (rule foldE_total) (simp add: best_match_right_total[OF assms(1)] assms(3))
  show ?thesis
    by (simp add: best_matches_of_def l r matches_total_def)
qed

lemma sort_key_Nil_iff [simp]: "sort_key f xs = [] \<longleftrightarrow> xs = []"
proof -
  have "length (sort_key f xs) = length xs" by (rule length_sort)
  then show ?thesis by (cases xs; cases "sort_key f xs") simp_all
qed

lemma correspondence_total:
  assumes "F1 \<noteq> []" and "F2 \<noteq> []"
    and "flat_stage_val simC (List.product (sort_key safe_sort_clause F1) (sort_key safe_sort_clause F2)) [] = Inr flat"
  shows "best_matches_of flat (sort_key safe_sort_clause F1) (sort_key safe_sort_clause F2)
         = Inr (matches_total (flat_sim simC) (sort_key safe_sort_clause F1) (sort_key safe_sort_clause F2))"
  by (rule best_matches_of_total) (simp_all add: assms(1,2) dict_item_flat[OF assms(3)])

section \<open>Claims on parameters, the set similarity and the correspondence\<close>

lemma best_matches_of_empty_right:
  "all1 \<noteq> [] \<Longrightarrow> best_matches_of flat all1 [] = Inl ValueError"
  by (cases all1) (simp_all add: best_matches_of_def best_match_left_def)

lemma best_matches_of_empty_left:
  "all2 \<noteq> [] \<Longrightarrow> best_matches_of flat [] all2 = Inl ValueError"
  by (cases all2) (simp_all add: best_matches_of_def best_match_right_def)

lemma best_matches_of_empty_both: "best_matches_of flat [] [] = Inr []"
  by (simp add: best_matches_of_def)

lemma simFormulaSet_val_one_empty:
  assumes "(F1 = []) \<noteq> (F2 = [])"
  shows "simFormulaSet_val simC F1 F2 cw1 cw2 pw1 pw2 kw1 kw2 params = Inl ValueError"
proof (cases "F1 = []")
  case True
  with assms have "F2 \<noteq> []" by simp
  then show ?thesis
    using True
    by (simp add: simFormulaSet_val_def Let_def flat_stage_val_eq best_matches_of_empty_left)
next
  case False
  with assms have "F2 = []" by simp
  then show ?thesis
    using False
    by (simp add: simFormulaSet_val_def Let_def flat_stage_val_eq best_matches_of_empty_right)
qed

lemma simFormulaSet_val_both_empty:
  "simFormulaSet_val simC [] [] cw1 cw2 pw1 pw2 kw1 kw2 params = Inr 0"
  by (simp add: simFormulaSet_val_def Let_def flat_stage_val_eq best_matches_of_empty_both final_val_def)

lemma matches_total_nonempty:
  assumes "all1 \<noteq> []" and "all2 \<noteq> []"
  shows "matches_total fs all1 all2 \<noteq> []"
proof -
  define flat where "flat = map (\<lambda>cc. (cc, fs (fst cc) (snd cc))) (List.product all1 all2)"
  have item: "dict_item flat (c1, c2) = Inr (fs c1 c2)" if "c1 \<in> set all1" "c2 \<in> set all2" for c1 c2
  proof -
    have "map_of flat (c1, c2) = Some (fs c1 c2)"
      unfolding flat_def using that
      by (simp add: map_of_map_restrict restrict_map_def)
    then show ?thesis by (simp add: dict_item_def)
  qed
  have "best_matches_of flat all1 all2 = Inr (matches_total fs all1 all2)"
    by (rule best_matches_of_total) (simp_all add: assms item)
  from best_matches_of_cover[OF this] assms(1) obtain c1 c2 where
    "(c1, c2) \<in> fst ` set (matches_total fs all1 all2)"
    by (cases all1) auto
  then show ?thesis by auto
qed

lemma simFormulaSet_val_no_params:
  assumes "F1 \<noteq> []" and "F2 \<noteq> []"
  shows "simFormulaSet_val simC F1 F2 cw1 cw2 pw1 pw2 kw1 kw2 None = Inl AttributeError"
proof -
  define all1 where "all1 = sort_key safe_sort_clause F1"
  define all2 where "all2 = sort_key safe_sort_clause F2"
  obtain flat where flat: "flat_stage_val simC (List.product all1 all2) [] = Inr flat"
    by (simp add: flat_stage_val_eq)
  have bm: "best_matches_of flat all1 all2 = Inr (matches_total (flat_sim simC) all1 all2)"
    unfolding all1_def all2_def
    by (rule correspondence_total) (simp_all add: assms flat[unfolded all1_def all2_def])
  have "matches_total (flat_sim simC) all1 all2 \<noteq> []"
    by (rule matches_total_nonempty) (simp_all add: all1_def all2_def assms)
  then obtain item rest where m: "matches_total (flat_sim simC) all1 all2 = item # rest"
    by (cases "matches_total (flat_sim simC) all1 all2") auto
  have "mapE (weighted_val simC cw1 cw2 (dict_merge pw1 pw2) (dict_merge kw1 kw2) None
                        (correction pw1 pw2 kw1 kw2)) (item # rest) = Inl AttributeError"
    by (simp add: weighted_val_def params_clause_def)
  then show ?thesis
    by (simp add: simFormulaSet_val_def Let_def all1_def[symmetric] all2_def[symmetric] flat bm m)
qed

lemma map_sum_fst_Inl: "map_sum id fst r = Inl e \<Longrightarrow> r = Inl e"
  by (cases r) simp_all

lemma map_sum_fst_Inr: "map_sum id fst r = Inr v \<longleftrightarrow> (\<exists>t. r = Inr (v, t))"
  by (cases r) auto

text \<open>
  C10: with \<open>params\<close> omitted (its default \<open>None\<close>), a call on two non-empty formulas
  raises \<open>AttributeError\<close> at the first \<open>params.get\<close> of the weighted rescoring step, and
  the call returns a result only when both formulas are empty.
\<close>

theorem simFormulaSet_params_omitted:
  "(F1 \<noteq> [] \<and> F2 \<noteq> [] \<longrightarrow>
      fst (simFormulaSet simC F1 F2 cw1 cw2 pw1 pw2 kw1 kw2 None debug s) = Inl AttributeError)
   \<and> ((\<exists>r. fst (simFormulaSet simC F1 F2 cw1 cw2 pw1 pw2 kw1 kw2 None debug s) = Inr r)
        \<longleftrightarrow> F1 = [] \<and> F2 = [])"
proof -
  let ?res = "fst (simFormulaSet simC F1 F2 cw1 cw2 pw1 pw2 kw1 kw2 None debug s)"
  have val: "map_sum id fst ?res = simFormulaSet_val simC F1 F2 cw1 cw2 pw1 pw2 kw1 kw2 None"
    by (rule fst_simFormulaSet)
  consider (both) "F1 \<noteq> []" "F2 \<noteq> []" | (one) "(F1 = []) \<noteq> (F2 = [])" | (none) "F1 = []" "F2 = []"
    by blast
  then show ?thesis
  proof cases
    case both
    with val have "map_sum id fst ?res = Inl AttributeError"
      by (simp add: simFormulaSet_val_no_params)
    then have "?res = Inl AttributeError" by (rule map_sum_fst_Inl)
    with both show ?thesis by simp
  next
    case one
    with val have "map_sum id fst ?res = Inl ValueError"
      by (simp add: simFormulaSet_val_one_empty)
    then have "?res = Inl ValueError" by (rule map_sum_fst_Inl)
    with one show ?thesis by auto
  next
    case none
    with val have "map_sum id fst ?res = Inr 0"
      by (simp add: simFormulaSet_val_both_empty)
    then obtain t where "?res = Inr (0, t)" by (auto simp: map_sum_fst_Inr)
    with none show ?thesis by simp
  qed
qed

theorem simFormulaSet_params_omitted_witness:
  "fst (simFormulaSet exact_match [[(''P'', [''a''])]] [[(''Q'', [''b''])]] [] [] [] [] [] []
          None None initial_trace) = Inl AttributeError
   \<and> (\<exists>r. fst (simFormulaSet exact_match [] [] [] [] [] [] [] [] None None initial_trace) = Inr r)"
  using simFormulaSet_params_omitted[of "[[(''P'', [''a''])]]" "[[(''Q'', [''b''])]]" exact_match
      "[]" "[]" "[]" "[]" "[]" "[]" None initial_trace]
    simFormulaSet_params_omitted[of "[]" "[]" exact_match "[]" "[]" "[]" "[]" "[]" "[]" None initial_trace]
  by simp



text \<open>
  C7: for two non-empty formulas the flat matrix is computed for every clause pair, the
  best-match loops succeed, and every clause of either formula occurs in at least one
  pair of the resulting correspondence.
\<close>

theorem clause_correspondence_covers:
  assumes "F1 \<noteq> []" and "F2 \<noteq> []"
  shows "\<exists>flat bm.
           fst (foldM (flat_step simC debug)
                  (List.product (sort_key safe_sort_clause F1) (sort_key safe_sort_clause F2)) [] s) = Inr flat
         \<and> best_matches_of flat (sort_key safe_sort_clause F1) (sort_key safe_sort_clause F2) = Inr bm
         \<and> (\<forall>c1 \<in> set F1. \<exists>c2 \<in> set F2. (c1, c2) \<in> fst ` set bm)
         \<and> (\<forall>c2 \<in> set F2. \<exists>c1 \<in> set F1. (c1, c2) \<in> fst ` set bm)"
proof -
  let ?all1 = "sort_key safe_sort_clause F1" and ?all2 = "sort_key safe_sort_clause F2"
  obtain flat where flat: "flat_stage_val simC (List.product ?all1 ?all2) [] = Inr flat"
    by (simp add: flat_stage_val_eq)
  have bm: "best_matches_of flat ?all1 ?all2 = Inr (matches_total (flat_sim simC) ?all1 ?all2)"
    by (rule correspondence_total[OF assms flat])
  from best_matches_of_cover[OF bm]
  have "(\<forall>c1 \<in> set F1. \<exists>c2 \<in> set F2. (c1, c2) \<in> fst ` set (matches_total (flat_sim simC) ?all1 ?all2))
      \<and> (\<forall>c2 \<in> set F2. \<exists>c1 \<in> set F1. (c1, c2) \<in> fst ` set (matches_total (flat_sim simC) ?all1 ?all2))"
    by simp
  with flat bm show ?thesis
    by (simp add: fst_flat_stage)
qed

theorem clause_correspondence_covers_witness:
  "\<exists>flat bm.
     fst (foldM (flat_step exact_match None)
            (List.product (sort_key safe_sort_clause [[(''P'', [''a''])], [(''Q'', [''b''])]])
                          (sort_key safe_sort_clause [[(''P'', [''a''])]])) [] initial_trace) = Inr flat
   \<and> best_matches_of flat (sort_key safe_sort_clause [[(''P'', [''a''])], [(''Q'', [''b''])]])
        (sort_key safe_sort_clause [[(''P'', [''a''])]]) = Inr bm
   \<and> ([(''P'', [''a''])], [(''P'', [''a''])]) \<in> fst ` set bm
   \<and> ([(''Q'', [''b''])], [(''P'', [''a''])]) \<in> fst ` set bm"
proof -
  let ?F1 = "[[(''P'', [''a''])], [(''Q'', [''b''])]]" and ?F2 = "[[(''P'', [''a''])]]"
  have ne: "?F1 \<noteq> []" "?F2 \<noteq> []" by simp_all
  from clause_correspondence_covers[OF ne, of exact_match None initial_trace]
  obtain flat bm where
    flat: "fst (foldM (flat_step exact_match None)
              (List.product (sort_key safe_sort_clause ?F1) (sort_key safe_sort_clause ?F2)) []
              initial_trace) = Inr flat"
    and bm: "best_matches_of flat (sort_key safe_sort_clause ?F1) (sort_key safe_sort_clause ?F2) = Inr bm"
    and cover: "\<forall>c1 \<in> set ?F1. \<exists>c2 \<in> set ?F2. (c1, c2) \<in> fst ` set bm"
    by (elim exE conjE)
  from cover have "([(''P'', [''a''])], [(''P'', [''a''])]) \<in> fst ` set bm"
    and "([(''Q'', [''b''])], [(''P'', [''a''])]) \<in> fst ` set bm"
    by simp_all
  with flat bm show ?thesis by (intro exI conjI)
qed

section \<open>Which errors a call can end in\<close>

lemma dict_get_append_default:
  "k \<notin> fst ` set d \<Longrightarrow> dict_get (d @ [(k, dflt)]) k' dflt = dict_get d k' dflt"
proof -
  assume "k \<notin> fst ` set d"
  then have none: "map_of d k = None" by (simp add: map_of_eq_None_iff)
  show ?thesis
  proof (cases "map_of d k'")
    case None
    then show ?thesis by (simp add: dict_get_def map_add_def)
  next
    case (Some v)
    with none have "k' \<noteq> k" by auto
    with Some show ?thesis by (simp add: dict_get_def map_add_def)
  qed
qed

lemma mapE_eq_Inl: "mapE f xs = Inl e \<Longrightarrow> \<exists>x \<in> set xs. f x = Inl e"
proof (induction xs)
  case Nil
  then show ?case by simp
next
  case (Cons x xs)
  then show ?case
    by (cases "f x"; cases "mapE f xs") (auto simp: bindE_def)
qed

lemma normalised_error: "normalised nm diff = Inl e \<Longrightarrow> e = ZeroDivisionError"
  by (auto simp: normalised_def py_div_def split: if_splits)

lemma pointwise_error:
  "pointwise_similarity_weighted args1 args2 simC w1 w2 pw uw diff = Inl e \<Longrightarrow> e = ZeroDivisionError"
  by (auto simp: pointwise_similarity_weighted_eq bindE_eq_Inl dest: normalised_error split: if_splits)

lemma simLiteral_val_error:
  "simLiteral_val simC x y pw kw diff = Inl e \<Longrightarrow> e = ZeroDivisionError"
  by (auto simp: simLiteral_val_def bindE_eq_Inl Let_def py_div_def dest: pointwise_error split: if_splits)

lemma membership_val_error:
  assumes "membership_val simv p agg x Y = Inl e"
  shows "(\<exists>y. simv x y = Inl e) \<or> (\<exists>xs. agg xs = Inl e)"
proof -
  from assms consider "mapE (\<lambda>y. bindE (simv x y) (\<lambda>s. Inr (s ^ p))) Y = Inl e" | "\<exists>xs. agg xs = Inl e"
    unfolding membership_val_def bindE_eq_Inl by blast
  then show ?thesis
  proof cases
    case 1
    from mapE_eq_Inl[OF this] obtain y where "bindE (simv x y) (\<lambda>s. Inr (s ^ p)) = Inl e" by blast
    then have "simv x y = Inl e" by (simp add: bindE_eq_Inl)
    then show ?thesis by blast
  next
    case 2
    then show ?thesis by blast
  qed
qed

lemma tversky_val_error:
  assumes "tversky_val X Y simv alpha beta p agg = Inl e"
  shows "(\<exists>x y. simv x y = Inl e) \<or> (\<exists>xs. agg xs = Inl e)"
proof -
  from assms have ne: "\<not> (X = [] \<or> Y = [])"
    by (auto simp: tversky_val_def)
  with assms have "bindE (mapE (\<lambda>x. membership_val simv p agg x Y) X) (\<lambda>match_X.
           bindE (mapE (\<lambda>y. membership_val simv p agg y X) Y) (\<lambda>match_Y.
           tversky_score alpha beta match_X match_Y)) = Inl e"
    by (simp add: tversky_val_def)
  then consider "mapE (\<lambda>x. membership_val simv p agg x Y) X = Inl e"
    | "mapE (\<lambda>y. membership_val simv p agg y X) Y = Inl e"
    by (cases "mapE (\<lambda>x. membership_val simv p agg x Y) X";
        cases "mapE (\<lambda>y. membership_val simv p agg y X) Y")
       (simp_all add: tversky_score_eq)
  then show ?thesis
  proof cases
    case 1
    from mapE_eq_Inl[OF this] obtain x where "membership_val simv p agg x Y = Inl e" by blast
    from membership_val_error[OF this] show ?thesis by blast
  next
    case 2
    from mapE_eq_Inl[OF this] obtain y where "membership_val simv p agg y X = Inl e" by blast
    from membership_val_error[OF this] show ?thesis by blast
  qed
qed

lemma py_max_error: "py_max xs = Inl e \<Longrightarrow> e = ValueError"
  by (cases xs) (simp_all add: py_max_def)

lemma foldE_left_keys_subset:
  assumes "foldE (best_match_left flat all2) cs acc = Inr r"
  shows "fst ` set r \<subseteq> fst ` set acc \<union> set cs \<times> set all2"
  using assms
proof (induction cs arbitrary: acc)
  case Nil
  then show ?case by simp
next
  case (Cons c cs)
  from Cons.prems obtain acc' where step: "best_match_left flat all2 c acc = Inr acc'"
    and rest: "foldE (best_match_left flat all2) cs acc' = Inr r"
    by (auto simp: bindE_eq_Inr)
  from best_match_left_Inr[OF step] obtain c2 v where c2: "c2 \<in> set all2"
    and acc': "acc' = AList.update (c, c2) v acc" by blast
  have keys: "fst ` set acc' = insert (c, c2) (fst ` set acc)"
    by (simp add: acc' dom_update)
  have "fst ` set r \<subseteq> fst ` set acc' \<union> set cs \<times> set all2"
    by (rule Cons.IH[OF rest])
  also have "\<dots> \<subseteq> fst ` set acc \<union> set (c # cs) \<times> set all2"
    unfolding keys using c2 by auto
  finally show ?case .
qed

lemma foldE_right_keys_subset:
  assumes "foldE (best_match_right flat all1) cs acc = Inr r"
  shows "fst ` set r \<subseteq> fst ` set acc \<union> set all1 \<times> set cs"
  using assms
proof (induction cs arbitrary: acc)
  case Nil
  then show ?case by simp
next
  case (Cons c cs)
  from Cons.prems obtain acc' where step: "best_match_right flat all1 c acc = Inr acc'"
    and rest: "foldE (best_match_right flat all1) cs acc' = Inr r"
    by (auto simp: bindE_eq_Inr)
  from best_match_right_Inr[OF step] obtain c1 v where c1: "c1 \<in> set all1"
    and acc': "acc' = AList.update (c1, c) v acc" by blast
  have keys: "fst ` set acc' = insert (c1, c) (fst ` set acc)"
    by (simp add: acc' dom_update)
  have "fst ` set r \<subseteq> fst ` set acc' \<union> set all1 \<times> set cs"
    by (rule Cons.IH[OF rest])
  also have "\<dots> \<subseteq> fst ` set acc \<union> set all1 \<times> set (c # cs)"
    unfolding keys using c1 by auto
  finally show ?case .
qed

lemma best_matches_of_keys_subset:
  assumes "best_matches_of flat all1 all2 = Inr bm"
  shows "fst ` set bm \<subseteq> set all1 \<times> set all2"
proof -
  from assms obtain bm1 where l: "foldE (best_match_left flat all2) all1 [] = Inr bm1"
    and r: "foldE (best_match_right flat all1) all2 bm1 = Inr bm"
    unfolding best_matches_of_def bindE_eq_Inr by blast
  from foldE_left_keys_subset[OF l] have "fst ` set bm1 \<subseteq> set all1 \<times> set all2" by simp
  with foldE_right_keys_subset[OF r] show ?thesis by blast
qed

lemma py_max_key_error:
  assumes "py_max_key key xs = Inl e"
  shows "e = ValueError \<or> (\<exists>x \<in> set xs. key x = Inl e)"
proof (cases xs)
  case Nil
  with assms show ?thesis by simp
next
  case (Cons x ys)
  have fold_err: "foldE (\<lambda>y (best, kbest). bindE (key y) (\<lambda>ky. Inr (if ky > kbest then (y, ky) else (best, kbest))))
          zs acc = Inl e \<Longrightarrow> \<exists>y \<in> set zs. key y = Inl e" for zs acc
  proof (induction zs arbitrary: acc)
    case Nil
    then show ?case by simp
  next
    case (Cons z zs)
    then show ?case
      by (cases "key z") (auto simp: split_beta bindE_eq_Inl)
  qed
  from assms Cons consider "key x = Inl e"
    | kx where "foldE (\<lambda>y (best, kbest). bindE (key y) (\<lambda>ky. Inr (if ky > kbest then (y, ky) else (best, kbest))))
          ys (x, kx) = Inl e"
    by (auto simp: py_max_key_def bindE_eq_Inl split_beta)
  then show ?thesis
  proof cases
    case 1
    with Cons show ?thesis by simp
  next
    case 2
    from fold_err[OF this] Cons show ?thesis by auto
  qed
qed

lemma simLiteral_missing_predicate:
  "k \<notin> fst ` set pw \<Longrightarrow>
   simLiteral simC obj1 obj2 (pw @ [(k, 0)]) kw debug diff = simLiteral simC obj1 obj2 pw kw debug diff"
  by (simp add: simLiteral_def dict_get_append_default)

lemma pointwise_missing_constant:
  "k \<notin> fst ` set kw \<Longrightarrow>
   pointwise_similarity_weighted args1 args2 simC (kw @ [(k, 0)]) (kw @ [(k, 0)]) a b diff
   = pointwise_similarity_weighted args1 args2 simC kw kw a b diff"
  by (simp add: pointwise_similarity_weighted_def dict_get_append_default)

lemma simLiteral_missing_constant:
  "k \<notin> fst ` set kw \<Longrightarrow>
   simLiteral simC obj1 obj2 pw (kw @ [(k, 0)]) debug diff = simLiteral simC obj1 obj2 pw kw debug diff"
  by (simp add: simLiteral_def dict_get_append_default pointwise_missing_constant)

lemma weighted_step_missing_clause1:
  "c \<notin> fst ` set cw1 \<Longrightarrow>
   weighted_step simC (cw1 @ [(c, 1)]) cw2 pw kw params debug diff
   = weighted_step simC cw1 cw2 pw kw params debug diff"
  by (simp add: weighted_step_def dict_get_append_default fun_eq_iff)

lemma weighted_step_missing_clause2:
  "c \<notin> fst ` set cw2 \<Longrightarrow>
   weighted_step simC cw1 (cw2 @ [(c, 1)]) pw kw params debug diff
   = weighted_step simC cw1 cw2 pw kw params debug diff"
  by (simp add: weighted_step_def dict_get_append_default fun_eq_iff)

lemma simFormulaSet_missing_clause1:
  "c \<notin> fst ` set cw1 \<Longrightarrow>
   simFormulaSet simC F1 F2 (cw1 @ [(c, 1)]) cw2 pw1 pw2 kw1 kw2 params debug
   = simFormulaSet simC F1 F2 cw1 cw2 pw1 pw2 kw1 kw2 params debug"
  by (simp add: simFormulaSet_def weighted_step_missing_clause1)

lemma simFormulaSet_missing_clause2:
  "c \<notin> fst ` set cw2 \<Longrightarrow>
   simFormulaSet simC F1 F2 cw1 (cw2 @ [(c, 1)]) pw1 pw2 kw1 kw2 params debug
   = simFormulaSet simC F1 F2 cw1 cw2 pw1 pw2 kw1 kw2 params debug"
  by (simp add: simFormulaSet_def weighted_step_missing_clause2)

lemma final_val_total: "\<exists>v. final_val ws = Inr v"
  by (simp add: final_val_def Let_def py_div_def)

lemma weighted_val_KeyError:
  assumes "weighted_val simC cw1 cw2 pw kw params diff item = Inl KeyError"
  shows "\<exists>ps cfg g xs. params = Some ps \<and> clause_cfg ps = Some cfg \<and> cp_agg cfg = Some g
           \<and> g xs = Inl KeyError"
proof -
  from assms obtain cfg where cfg: "params_clause params = Inr cfg"
    and tv: "tversky_val (fst (fst item)) (snd (fst item))
              (\<lambda>l1 l2. simLiteral_val simC l1 l2 pw kw diff)
              (opt_get (cp_alpha cfg) (1 / 2)) (opt_get (cp_beta cfg) (1 / 2))
              (opt_get (cp_p cfg) 1) (opt_get (cp_agg cfg) py_max) = Inl KeyError"
    by (cases "params_clause params")
       (auto simp: weighted_val_def bindE_eq_Inl params_clause_def split: option.splits)
  from tversky_val_error[OF tv] simLiteral_val_error
  obtain xs where xs: "opt_get (cp_agg cfg) py_max xs = Inl KeyError"
    by fastforce
  show ?thesis
  proof (cases "cp_agg cfg")
    case None
    with xs py_max_error[of xs KeyError] show ?thesis by (simp add: opt_get_def)
  next
    case (Some g)
    with xs have g: "g xs = Inl KeyError" by (simp add: opt_get_def)
    from cfg obtain ps where ps: "params = Some ps"
      by (cases params) (simp_all add: params_clause_def)
    show ?thesis
    proof (cases "clause_cfg ps")
      case None
      with cfg ps Some show ?thesis by (auto simp: params_clause_def)
    next
      case (Some c')
      with cfg ps have "c' = cfg" by (simp add: params_clause_def)
      with Some ps \<open>cp_agg cfg = Some g\<close> g show ?thesis by blast
    qed
  qed
qed

lemma simFormulaSet_val_KeyError:
  assumes "simFormulaSet_val simC F1 F2 cw1 cw2 pw1 pw2 kw1 kw2 params = Inl KeyError"
  shows "\<exists>ps cfg g xs. params = Some ps \<and> clause_cfg ps = Some cfg \<and> cp_agg cfg = Some g
           \<and> g xs = Inl KeyError"
proof -
  define all1 where "all1 = sort_key safe_sort_clause F1"
  define all2 where "all2 = sort_key safe_sort_clause F2"
  obtain flat where flat: "flat_stage_val simC (List.product all1 all2) [] = Inr flat"
    by (simp add: flat_stage_val_eq)
  have ne: "F1 \<noteq> []" "F2 \<noteq> []"
  proof -
    have "\<not> ((F1 = []) \<noteq> (F2 = []))"
      using assms simFormulaSet_val_one_empty[of F1 F2 simC cw1 cw2 pw1 pw2 kw1 kw2 params] by auto
    moreover have "\<not> (F1 = [] \<and> F2 = [])"
      using assms simFormulaSet_val_both_empty[of simC cw1 cw2 pw1 pw2 kw1 kw2 params] by auto
    ultimately show "F1 \<noteq> []" "F2 \<noteq> []" by auto
  qed
  define bm where "bm = matches_total (flat_sim simC) all1 all2"
  have bm: "best_matches_of flat all1 all2 = Inr bm"
    unfolding all1_def all2_def bm_def
    by (rule correspondence_total) (simp_all add: ne flat[unfolded all1_def all2_def])
  have keys: "fst ` set bm \<subseteq> set (List.product all1 all2)"
    using best_matches_of_keys_subset[OF bm] by simp
  have pairs: "\<exists>es. mapE (\<lambda>item. bindE (dict_item flat (fst item))
                                  (\<lambda>v. Inr (FormulaPair (fst (fst item)) (snd (fst item)) v))) bm = Inr es"
  proof -
    have "mapE (\<lambda>item. bindE (dict_item flat (fst item))
                                  (\<lambda>v. Inr (FormulaPair (fst (fst item)) (snd (fst item)) v))) bm
          = Inr (map (\<lambda>item. FormulaPair (fst (fst item)) (snd (fst item))
                       (flat_sim simC (fst (fst item)) (snd (fst item)))) bm)"
    proof (rule mapE_total)
      fix item assume "item \<in> set bm"
      with keys have "fst item \<in> set (List.product all1 all2)" by auto
      then show "bindE (dict_item flat (fst item)) (\<lambda>v. Inr (FormulaPair (fst (fst item)) (snd (fst item)) v))
          = Inr (FormulaPair (fst (fst item)) (snd (fst item)) (flat_sim simC (fst (fst item)) (snd (fst item))))"
        by (simp add: dict_item_flat[OF flat])
    qed
    then show ?thesis by blast
  qed
  have "mapE (weighted_val simC cw1 cw2 (dict_merge pw1 pw2) (dict_merge kw1 kw2) params
                        (correction pw1 pw2 kw1 kw2)) bm = Inl KeyError"
  proof (cases "mapE (weighted_val simC cw1 cw2 (dict_merge pw1 pw2) (dict_merge kw1 kw2) params
                        (correction pw1 pw2 kw1 kw2)) bm")
    case (Inl e)
    with assms show ?thesis
      by (simp add: simFormulaSet_val_def Let_def all1_def[symmetric] all2_def[symmetric] flat bm)
  next
    case (Inr ws)
    obtain v where "final_val ws = Inr v" using final_val_total by blast
    with Inr pairs assms show ?thesis
      by (auto simp: simFormulaSet_val_def Let_def all1_def[symmetric] all2_def[symmetric] flat bm)
  qed
  from mapE_eq_Inl[OF this] obtain item where
    "weighted_val simC cw1 cw2 (dict_merge pw1 pw2) (dict_merge kw1 kw2) params
        (correction pw1 pw2 kw1 kw2) item = Inl KeyError" by blast
  then show ?thesis by (rule weighted_val_KeyError)
qed

section \<open>Missing weights\<close>

text \<open>
  C9: a key missing from a weight map is treated as weight 0.0 and never makes a lookup
  fail. This holds for the predicate and constant weights. A clause missing from a
  clause weight map has weight 1.0, not 0.0: for \<open>{P(a)}\<close> against itself, with the
  clause weight 0 on side 2, the score is 1 when side 1 has no entry for the clause
  and 0 when side 1 gives it the weight 0.0.
\<close>

theorem missing_clause_weight_is_not_zero:
  "map_sum id fst (fst (simFormulaSet exact_match [[(''P'', [''a''])]] [[(''P'', [''a''])]]
       [] [([(''P'', [''a''])], 0)]
       [(''P'', 1 / 2)] [(''P'', 1 / 2)] [(''a'', 1 / 2)] [(''a'', 1 / 2)]
       (Some \<lparr>clause_cfg = None\<rparr>) None initial_trace)) = Inr 1
   \<and> map_sum id fst (fst (simFormulaSet exact_match [[(''P'', [''a''])]] [[(''P'', [''a''])]]
       [([(''P'', [''a''])], 0)] [([(''P'', [''a''])], 0)]
       [(''P'', 1 / 2)] [(''P'', 1 / 2)] [(''a'', 1 / 2)] [(''a'', 1 / 2)]
       (Some \<lparr>clause_cfg = None\<rparr>) None initial_trace)) = Inr 0"
  by code_simp

text \<open>
  C9 as the code has it: in the weighted literal score a predicate or constant that the
  weight map lacks behaves as one with the weight 0.0; in the formula score a clause
  that a clause weight map lacks behaves as one with the weight 1.0; and no lookup
  raises \<open>KeyError\<close>: the call can only end in \<open>KeyError\<close> if the caller's own
  aggregation function raises it.
\<close>

theorem missing_weights_take_their_default:
  "(k \<notin> fst ` set predicate_weights \<longrightarrow>
      simLiteral simC obj1 obj2 (predicate_weights @ [(k, 0)]) constant_weights debug diff
      = simLiteral simC obj1 obj2 predicate_weights constant_weights debug diff)
   \<and> (k \<notin> fst ` set constant_weights \<longrightarrow>
      simLiteral simC obj1 obj2 predicate_weights (constant_weights @ [(k, 0)]) debug diff
      = simLiteral simC obj1 obj2 predicate_weights constant_weights debug diff)
   \<and> (c \<notin> fst ` set clause_weights1 \<longrightarrow>
      simFormulaSet simC F1 F2 (clause_weights1 @ [(c, 1)]) clause_weights2 pw1 pw2 kw1 kw2 params debug
      = simFormulaSet simC F1 F2 clause_weights1 clause_weights2 pw1 pw2 kw1 kw2 params debug)
   \<and> (c \<notin> fst ` set clause_weights2 \<longrightarrow>
      simFormulaSet simC F1 F2 clause_weights1 (clause_weights2 @ [(c, 1)]) pw1 pw2 kw1 kw2 params debug
      = simFormulaSet simC F1 F2 clause_weights1 clause_weights2 pw1 pw2 kw1 kw2 params debug)
   \<and> ((\<forall>ps cfg g xs. params = Some ps \<longrightarrow> clause_cfg ps = Some cfg \<longrightarrow> cp_agg cfg = Some g
          \<longrightarrow> g xs \<noteq> Inl KeyError) \<longrightarrow>
      fst (simFormulaSet simC F1 F2 clause_weights1 clause_weights2 pw1 pw2 kw1 kw2 params debug s)
      \<noteq> Inl KeyError)"
proof (intro conjI impI)
  assume "k \<notin> fst ` set predicate_weights"
  then show "simLiteral simC obj1 obj2 (predicate_weights @ [(k, 0)]) constant_weights debug diff
      = simLiteral simC obj1 obj2 predicate_weights constant_weights debug diff"
    by (rule simLiteral_missing_predicate)
next
  assume "k \<notin> fst ` set constant_weights"
  then show "simLiteral simC obj1 obj2 predicate_weights (constant_weights @ [(k, 0)]) debug diff
      = simLiteral simC obj1 obj2 predicate_weights constant_weights debug diff"
    by (rule simLiteral_missing_constant)
next
  assume "c \<notin> fst ` set clause_weights1"
  then show "simFormulaSet simC F1 F2 (clause_weights1 @ [(c, 1)]) clause_weights2 pw1 pw2 kw1 kw2 params debug
      = simFormulaSet simC F1 F2 clause_weights1 clause_weights2 pw1 pw2 kw1 kw2 params debug"
    by (rule simFormulaSet_missing_clause1)
next
  assume "c \<notin> fst ` set clause_weights2"
  then show "simFormulaSet simC F1 F2 clause_weights1 (clause_weights2 @ [(c, 1)]) pw1 pw2 kw1 kw2 params debug
      = simFormulaSet simC F1 F2 clause_weights1 clause_weights2 pw1 pw2 kw1 kw2 params debug"
    by (rule simFormulaSet_missing_clause2)
next
  assume agg: "\<forall>ps cfg g xs. params = Some ps \<longrightarrow> clause_cfg ps = Some cfg \<longrightarrow> cp_agg cfg = Some g
          \<longrightarrow> g xs \<noteq> Inl KeyError"
  show "fst (simFormulaSet simC F1 F2 clause_weights1 clause_weights2 pw1 pw2 kw1 kw2 params debug s)
      \<noteq> Inl KeyError"
  proof
    assume "fst (simFormulaSet simC F1 F2 clause_weights1 clause_weights2 pw1 pw2 kw1 kw2 params debug s)
      = Inl KeyError"
    then have "map_sum id fst (fst (simFormulaSet simC F1 F2 clause_weights1 clause_weights2
          pw1 pw2 kw1 kw2 params debug s)) = Inl KeyError"
      by simp
    then have "simFormulaSet_val simC F1 F2 clause_weights1 clause_weights2 pw1 pw2 kw1 kw2 params
          = Inl KeyError"
      by (simp add: fst_simFormulaSet)
    from simFormulaSet_val_KeyError[OF this] agg show False by blast
  qed
qed

theorem missing_weights_take_their_default_witness:
  "simLiteral exact_match (''P'', [''a'']) (''Q'', [''b'']) ([(''P'', 1 / 2)] @ [(''Q'', 0)]) [(''a'', 1 / 2)] None 0
     = simLiteral exact_match (''P'', [''a'']) (''Q'', [''b'']) [(''P'', 1 / 2)] [(''a'', 1 / 2)] None 0
   \<and> simLiteral exact_match (''P'', [''a'']) (''Q'', [''b'']) [(''P'', 1 / 2)] ([(''a'', 1 / 2)] @ [(''b'', 0)]) None 0
     = simLiteral exact_match (''P'', [''a'']) (''Q'', [''b'']) [(''P'', 1 / 2)] [(''a'', 1 / 2)] None 0
   \<and> simFormulaSet exact_match [[(''P'', [''a''])]] [[(''P'', [''a''])]] ([] @ [([(''P'', [''a''])], 1)]) []
        [(''P'', 1 / 2)] [(''P'', 1 / 2)] [(''a'', 1 / 2)] [(''a'', 1 / 2)] (Some \<lparr>clause_cfg = None\<rparr>) None
     = simFormulaSet exact_match [[(''P'', [''a''])]] [[(''P'', [''a''])]] [] []
        [(''P'', 1 / 2)] [(''P'', 1 / 2)] [(''a'', 1 / 2)] [(''a'', 1 / 2)] (Some \<lparr>clause_cfg = None\<rparr>) None
   \<and> simFormulaSet exact_match [[(''P'', [''a''])]] [[(''P'', [''a''])]] [] ([] @ [([(''P'', [''a''])], 1)])
        [(''P'', 1 / 2)] [(''P'', 1 / 2)] [(''a'', 1 / 2)] [(''a'', 1 / 2)] (Some \<lparr>clause_cfg = None\<rparr>) None
     = simFormulaSet exact_match [[(''P'', [''a''])]] [[(''P'', [''a''])]] [] []
        [(''P'', 1 / 2)] [(''P'', 1 / 2)] [(''a'', 1 / 2)] [(''a'', 1 / 2)] (Some \<lparr>clause_cfg = None\<rparr>) None
   \<and> fst (simFormulaSet exact_match [[(''P'', [''a''])]] [[(''P'', [''a''])]] [] []
        [(''P'', 1 / 2)] [(''P'', 1 / 2)] [(''a'', 1 / 2)] [(''a'', 1 / 2)] (Some \<lparr>clause_cfg = None\<rparr>) None
        initial_trace) \<noteq> Inl KeyError"
proof -
  note inst1 = missing_weights_take_their_default[where k = "''Q''" and predicate_weights = "[(''P'', 1 / 2)]"
      and simC = exact_match and ?obj1.0 = "(''P'', [''a''])" and ?obj2.0 = "(''Q'', [''b''])"
      and constant_weights = "[(''a'', 1 / 2)]" and debug = None and diff = 0
      and c = "[(''P'', [''a''])]" and ?clause_weights1.0 = "[]" and ?clause_weights2.0 = "[]"
      and ?F1.0 = "[[(''P'', [''a''])]]" and ?F2.0 = "[[(''P'', [''a''])]]"
      and ?pw1.0 = "[(''P'', 1 / 2)]" and ?pw2.0 = "[(''P'', 1 / 2)]"
      and ?kw1.0 = "[(''a'', 1 / 2)]" and ?kw2.0 = "[(''a'', 1 / 2)]"
      and params = "Some \<lparr>clause_cfg = None\<rparr>" and s = initial_trace]
  note inst2 = missing_weights_take_their_default[where k = "''b''" and predicate_weights = "[(''P'', 1 / 2)]"
      and simC = exact_match and ?obj1.0 = "(''P'', [''a''])" and ?obj2.0 = "(''Q'', [''b''])"
      and constant_weights = "[(''a'', 1 / 2)]" and debug = None and diff = 0
      and c = "[(''P'', [''a''])]" and ?clause_weights1.0 = "[]" and ?clause_weights2.0 = "[]"
      and ?F1.0 = "[[(''P'', [''a''])]]" and ?F2.0 = "[[(''P'', [''a''])]]"
      and ?pw1.0 = "[(''P'', 1 / 2)]" and ?pw2.0 = "[(''P'', 1 / 2)]"
      and ?kw1.0 = "[(''a'', 1 / 2)]" and ?kw2.0 = "[(''a'', 1 / 2)]"
      and params = "Some \<lparr>clause_cfg = None\<rparr>" and s = initial_trace]
  have h1: "''Q'' \<notin> fst ` set [(''P'', 1 / 2 :: real)]" by simp
  have h2: "''b'' \<notin> fst ` set [(''a'', 1 / 2 :: real)]" by simp
  have h3: "[(''P'', [''a''])] \<notin> fst ` set ([] :: (clause \<times> real) list)" by simp
  have h5: "\<forall>ps cfg g xs. Some \<lparr>clause_cfg = None\<rparr> = Some ps \<longrightarrow> clause_cfg ps = Some cfg
      \<longrightarrow> cp_agg cfg = Some g \<longrightarrow> g xs \<noteq> Inl KeyError"
    by auto
  from inst1 h1 have c1: "simLiteral exact_match (''P'', [''a'']) (''Q'', [''b'']) ([(''P'', 1 / 2)] @ [(''Q'', 0)]) [(''a'', 1 / 2)] None 0
     = simLiteral exact_match (''P'', [''a'']) (''Q'', [''b'']) [(''P'', 1 / 2)] [(''a'', 1 / 2)] None 0"
    by blast
  from inst2 h2 have c2: "simLiteral exact_match (''P'', [''a'']) (''Q'', [''b'']) [(''P'', 1 / 2)] ([(''a'', 1 / 2)] @ [(''b'', 0)]) None 0
     = simLiteral exact_match (''P'', [''a'']) (''Q'', [''b'']) [(''P'', 1 / 2)] [(''a'', 1 / 2)] None 0"
    by blast
  from inst1 h3 h5 c1 c2 show ?thesis by blast
qed

section \<open>Trace invariants\<close>

lemma preserves_returnM [simp]: "preserves P (returnM v)"
  by (simp add: preserves_def returnM_def)

lemma preserves_liftM [simp]: "preserves P (liftM r)"
  by (simp add: preserves_def liftM_def)

lemma preserves_bindM:
  assumes "preserves P m" and "\<And>v. preserves P (f v)"
  shows "preserves P (bindM m f)"
  unfolding preserves_def
proof (intro allI impI)
  fix s assume "P s"
  with assms(1) have m: "P (snd (m s))" by (simp add: preserves_def)
  show "P (snd (bindM m f s))"
  proof (cases "m s")
    case (Pair r s')
    with m have "P s'" by simp
    with assms(2) Pair show ?thesis
      by (cases r) (simp_all add: bindM_def preserves_def)
  qed
qed

lemma preserves_mapM:
  assumes "\<And>x. preserves P (f x)"
  shows "preserves P (mapM f xs)"
proof (induction xs)
  case Nil
  show ?case by simp
next
  case (Cons x xs)
  show ?case
    unfolding mapM.simps
    by (intro preserves_bindM assms Cons preserves_returnM)
qed

lemma preserves_foldM:
  assumes "\<And>x acc. preserves P (f x acc)"
  shows "preserves P (foldM f xs acc)"
proof (induction xs arbitrary: acc)
  case Nil
  show ?case by simp
next
  case (Cons x xs)
  show ?case
    unfolding foldM.simps
    by (intro preserves_bindM assms Cons)
qed

lemma map_filter_snoc:
  "List.map_filter f (xs @ [x]) = List.map_filter f xs @ (case f x of None \<Rightarrow> [] | Some y \<Rightarrow> [y])"
  by (induction xs) (auto simp: List.map_filter_simps split: option.splits)

lemma preserves_append_summary:
  "lvl' \<noteq> lvl \<Longrightarrow> preserves (literal_trace_inv lvl) (append_summary lvl' e)"
  by (simp add: preserves_def append_summary_def literal_trace_inv_def)

lemma preserves_extend_summary:
  "lvl' \<noteq> lvl \<Longrightarrow> preserves (literal_trace_inv lvl) (extend_summary lvl' es)"
  by (simp add: preserves_def extend_summary_def literal_trace_inv_def)

lemma preserves_record_debug:
  assumes "lvl' = lvl \<Longrightarrow> entry_pair e = Some (Inl key)"
  shows "preserves (literal_trace_inv lvl) (record_debug lvl' key e)"
proof (cases "lvl' = lvl")
  case False
  then show ?thesis
    by (simp add: preserves_def record_debug_def literal_trace_inv_def)
next
  case True
  with assms have e: "entry_pair e = Some (Inl key)" by simp
  show ?thesis
    unfolding preserves_def
  proof (intro allI impI)
    fix s assume inv: "literal_trace_inv lvl s"
    show "literal_trace_inv lvl (snd (record_debug lvl' key e s))"
    proof (cases "key \<in> seen_debugs s lvl")
      case True
      with inv \<open>lvl' = lvl\<close> show ?thesis by (simp add: record_debug_def)
    next
      case False
      from inv have d: "distinct (List.map_filter entry_pair (debug_summary s lvl))"
        and k: "\<forall>e \<in> set (debug_summary s lvl). \<exists>k \<in> seen_debugs s lvl. entry_pair e = Some (Inl k)"
        by (simp_all add: literal_trace_inv_def deduplicated_def)
      have new: "Inl key \<notin> set (List.map_filter entry_pair (debug_summary s lvl))"
      proof
        assume "Inl key \<in> set (List.map_filter entry_pair (debug_summary s lvl))"
        then obtain e' where "e' \<in> set (debug_summary s lvl)" "entry_pair e' = Some (Inl key)"
          by (auto simp: List.map_filter_def)
        with k False show False by fastforce
      qed
      from False \<open>lvl' = lvl\<close> d k new e show ?thesis
        by (auto simp: record_debug_def literal_trace_inv_def deduplicated_def map_filter_snoc)
    qed
  qed
qed

lemma canonical_pair: "{fst (canonical obj1 obj2), snd (canonical obj1 obj2)} = {obj1, obj2}"
  by (auto simp: canonical_def)

lemma preserves_simLiteral_flat:
  "preserves (literal_trace_inv lvl) (simLiteral_flat simC obj1 obj2 debug diff)"
  unfolding simLiteral_flat_def Let_def split_beta
  by (intro preserves_bindM preserves_liftM preserves_returnM)
     (auto intro!: preserves_record_debug simp: canonical_pair)

lemma preserves_simLiteral:
  "preserves (literal_trace_inv lvl) (simLiteral simC obj1 obj2 pw kw debug diff)"
  unfolding simLiteral_def Let_def split_beta
  by (intro preserves_bindM preserves_liftM preserves_returnM)
     (auto intro!: preserves_record_debug simp: canonical_pair)

lemma preserves_record_pairs:
  assumes "lvl' \<noteq> lvl" and "\<And>x y. preserves (literal_trace_inv lvl) (sim x y)"
  shows "preserves (literal_trace_inv lvl) (record_pairs sim lvl' ps seen)"
proof (induction ps arbitrary: seen)
  case Nil
  show ?case by simp
next
  case (Cons xy ps)
  show ?case
    unfolding record_pairs.simps Let_def
    by (auto intro!: preserves_bindM assms(2) preserves_append_summary[OF assms(1)] Cons)
qed

lemma preserves_membership:
  assumes "\<And>x y. preserves P (sim x y)"
  shows "preserves P (membership sim p agg x Y)"
  unfolding membership_def
  by (intro preserves_bindM preserves_mapM assms preserves_returnM preserves_liftM)

lemma preserves_generalized_tversky_similarity:
  assumes "lvl' \<noteq> lvl" and "\<And>x y. preserves (literal_trace_inv lvl) (sim x y)"
  shows "preserves (literal_trace_inv lvl)
           (generalized_tversky_similarity X Y sim alpha beta p agg debug lvl')"
  unfolding generalized_tversky_similarity_def Let_def
  by (auto intro!: preserves_bindM preserves_mapM preserves_membership assms(2)
        preserves_append_summary[OF assms(1)] preserves_record_pairs[OF assms])

lemma preserves_flat_step:
  assumes "lvl \<noteq> Clause_flat"
  shows "preserves (literal_trace_inv lvl) (flat_step simC debug cc flat)"
  unfolding flat_step_def
  using assms
  by (intro preserves_bindM preserves_generalized_tversky_similarity preserves_simLiteral_flat
        preserves_append_summary preserves_returnM) simp_all

lemma preserves_weighted_step:
  assumes "lvl \<noteq> Clause_weighted"
  shows "preserves (literal_trace_inv lvl) (weighted_step simC cw1 cw2 pw kw params debug diff item)"
  unfolding weighted_step_def Let_def
  using assms
  by (intro preserves_bindM preserves_generalized_tversky_similarity preserves_simLiteral
        preserves_append_summary preserves_returnM preserves_liftM) simp_all

lemma literal_trace_inv_simFormulaSet:
  assumes "lvl = Literal_flat \<or> lvl = Literal_weighted"
  shows "literal_trace_inv lvl
           (snd (simFormulaSet simC F1 F2 cw1 cw2 pw1 pw2 kw1 kw2 params debug s))"
proof -
  from assms have l: "lvl \<noteq> Clause_flat" "lvl \<noteq> Clause_weighted" "Formula \<noteq> lvl" by auto
  have fin: "preserves (literal_trace_inv lvl)
               (\<lambda>s. (Inr (final_score, debug_summary s), s))" for final_score :: real
    by (simp add: preserves_def)
  have body: "preserves (literal_trace_inv lvl)
      (let predicate_weights = dict_merge pw1 pw2;
         constant_weights = dict_merge kw1 kw2;
         sum_preds = sum_list (dict_values pw1) + sum_list (dict_values pw2);
         sum_consts = sum_list (dict_values kw1) + sum_list (dict_values kw2);
         diff = 2 - sum_preds - sum_consts;
         epsilon = 1 / 10000;
         diff = (if \<bar>diff\<bar> < epsilon then 0 else diff);
         all_clauses1 = sort_key safe_sort_clause F1;
         all_clauses2 = sort_key safe_sort_clause F2
     in bindM (foldM (flat_step simC debug) (List.product all_clauses1 all_clauses2) []) (\<lambda>flat_similarities.
        bindM (liftM (best_matches_of flat_similarities all_clauses1 all_clauses2)) (\<lambda>best_matches.
        bindM (mapM (weighted_step simC cw1 cw2 predicate_weights
                       constant_weights params debug diff) best_matches) (\<lambda>weighted_scores.
        let total_weight = sum_list (map snd weighted_scores)
        in bindM (liftM (if total_weight > 0
                         then py_div (sum_list (map (\<lambda>sw. fst sw * snd sw) weighted_scores)) total_weight
                         else Inr 0)) (\<lambda>final_score.
           bindM (append_summary Formula (Total 0 0 0 final_score)) (\<lambda>_.
           bindM (liftM (mapE (\<lambda>item. bindE (dict_item flat_similarities (fst item))
                                  (\<lambda>v. Inr (FormulaPair (fst (fst item)) (snd (fst item)) v)))
                           best_matches)) (\<lambda>pairs.
           bindM (extend_summary Formula pairs) (\<lambda>_.
           (\<lambda>s. (Inr (final_score, debug_summary s), s))))))))))"
    unfolding Let_def
    by (intro preserves_bindM preserves_foldM preserves_mapM preserves_flat_step[OF l(1)]
          preserves_weighted_step[OF l(2)] preserves_liftM preserves_append_summary[OF l(3)]
          preserves_extend_summary[OF l(3)] fin)
  have cleared: "literal_trace_inv lvl (snd (clear_traces s))"
    by (simp add: clear_traces_def literal_trace_inv_def deduplicated_def List.map_filter_simps)
  have run: "snd (bindM clear_traces (\<lambda>_. f) s) = snd (f (snd (clear_traces s)))" for f :: "'x M"
    by (simp add: bindM_def clear_traces_def)
  from body cleared show ?thesis
    unfolding simFormulaSet_def run preserves_def by blast
qed

text \<open>
  C8: within one call no trace level holds two entries for the same unordered pair. The
  clause-level traces do: for \<open>F1 = F2 = {{P(a)}, {Q(b)}}\<close> the flat clause trace holds
  one entry for each of the four ordered clause pairs, so the unordered pair of the two
  clauses is recorded twice.
\<close>

theorem clause_flat_trace_repeats_a_pair:
  "debug_summary (snd (simFormulaSet exact_match
        [[(''P'', [''a''])], [(''Q'', [''b''])]] [[(''P'', [''a''])], [(''Q'', [''b''])]]
        [] [] [] [] [] [] (Some \<lparr>clause_cfg = None\<rparr>) None initial_trace)) Clause_flat
   = [ClausePairScore [(''P'', [''a''])] [(''P'', [''a''])] 1,
      ClausePairScore [(''P'', [''a''])] [(''Q'', [''b''])] 0,
      ClausePairScore [(''Q'', [''b''])] [(''P'', [''a''])] 0,
      ClausePairScore [(''Q'', [''b''])] [(''Q'', [''b''])] 1]
   \<and> \<not> deduplicated (debug_summary (snd (simFormulaSet exact_match
        [[(''P'', [''a''])], [(''Q'', [''b''])]] [[(''P'', [''a''])], [(''Q'', [''b''])]]
        [] [] [] [] [] [] (Some \<lparr>clause_cfg = None\<rparr>) None initial_trace)) Clause_flat)"
  by code_simp

text \<open>
  C8 as the code has it: the deduplication by the unordered pair is that of
  \<open>record_debug\<close>, which only the literal scorers call. Whatever the state a call starts
  from and however it ends, its two literal-level traces hold no two entries for the
  same unordered pair of literals.
\<close>

theorem literal_traces_deduplicated:
  "deduplicated (debug_summary
       (snd (simFormulaSet simC F1 F2 cw1 cw2 pw1 pw2 kw1 kw2 params debug s)) Literal_flat)
   \<and> deduplicated (debug_summary
       (snd (simFormulaSet simC F1 F2 cw1 cw2 pw1 pw2 kw1 kw2 params debug s)) Literal_weighted)"
  using literal_trace_inv_simFormulaSet[of Literal_flat simC F1 F2 cw1 cw2 pw1 pw2 kw1 kw2 params debug s]
    literal_trace_inv_simFormulaSet[of Literal_weighted simC F1 F2 cw1 cw2 pw1 pw2 kw1 kw2 params debug s]
  by (simp add: literal_trace_inv_def)

section \<open>Scores in the unit interval\<close>













lemma unit_agg_py_max: "unit_agg py_max"
  unfolding unit_agg_def
proof (intro allI impI)
  fix xs :: "real list"
  assume xs: "xs \<noteq> [] \<and> (\<forall>x \<in> set xs. unit x)"
  then have "Max (set xs) \<in> set xs" by (intro Max_in) simp_all
  with xs have "unit (Max (set xs))" by blast
  with xs show "\<exists>v. py_max xs = Inr v \<and> unit v" by (simp add: py_max_Max)
qed

lemma unit_agg_agg_max: "unit_agg agg_max"
  using unit_agg_py_max by (simp add: unit_agg_def agg_max_def)

lemma unit_agg_agg_avg: "unit_agg agg_avg"
  unfolding unit_agg_def
proof (intro allI impI)
  fix xs :: "real list"
  assume xs: "xs \<noteq> [] \<and> (\<forall>x \<in> set xs. unit x)"
  then have "0 \<le> sum_list xs" by (intro sum_list_nonneg) (simp add: unit_def)
  moreover have "sum_list xs \<le> sum_list (map (\<lambda>_. 1) xs)"
    using xs by (intro sum_list_mono[of xs "\<lambda>x. x" "\<lambda>_. 1", simplified]) (simp add: unit_def)
  then have "sum_list xs \<le> real (length xs)" by (simp add: sum_list_triv)
  moreover from xs have "0 < real (length xs)" by simp
  ultimately have "unit (sum_list xs / real (length xs))"
    by (simp add: unit_def divide_le_eq)
  with xs show "\<exists>v. agg_avg xs = Inr v \<and> unit v" by (simp add: agg_avg_def py_div_def)
qed














section \<open>Exchanging the two sides\<close>








lemma swap_item_swap_item [simp]: "swap_item (swap_item item) = item"
  by (simp add: swap_item_def)

















section \<open>Comparing a formula with itself\<close>




















lemma max_agg_agg_max: "max_agg agg_max"
  by (simp add: max_agg_def agg_max_def py_max_Max)






















end
